theory Spec2Isabelle
  imports Complex_Main "HOL-Library.Word" "HOL-Library.Sublist"
begin

section \<open>Values and the outside world\<close>

text \<open>
  The program is a small C++ OpenGL demo: \<^verbatim>\<open>ShaderHelpers.h\<close> (logging, shader
  building), \<^verbatim>\<open>Cube.h\<close> (the mesh), \<^verbatim>\<open>BaseApplication.h\<close> (the application
  state and its lifecycle) and \<^verbatim>\<open>HelloCube.cpp\<close> (callbacks, the draw function and
  the main loop).

  Every call into GLFW, OpenGL and the C library that has an effect is appended to a
  trace, in program order. What those libraries answer (handles, statuses, file
  contents) is given by a driver record; each answer is a function of the trace so
  far, so that two calls of the same function may answer differently. Clock readings
  (\<^verbatim>\<open>glfwGetTime\<close>) and the events that \<^verbatim>\<open>glfwPollEvents\<close> delivers are inputs
  of a run.

  \<^verbatim>\<open>GLuint\<close> and \<^verbatim>\<open>unsigned int\<close> are 32-bit words. C \<^verbatim>\<open>int\<close> values (sizes, key
  codes, uniform locations) are only compared and stored, and are integers; the one
  subtraction on them, \<^verbatim>\<open>key - '0'\<close>, is taken between 48 and 57.

  A \<^verbatim>\<open>double\<close> or \<^verbatim>\<open>float\<close> is a value of type \<open>fp\<close>: a finite value, given
  by the real number it denotes, an infinity or a NaN. Every operation is evaluated in
  the format of its operands and rounds: on finite operands its result is the exact
  result rounded to the format, by
  \<open>round_double\<close> or \<open>round_float\<close> of the driver, which may answer an infinity
  when the exact result is too large for the format. The two rounding functions are
  parameters, like the other answers of the platform. On the other operands, and for a
  zero divisor, the results are those of IEEE 754. The two zeros of a format are not
  told apart: the divisors of the program are conversions of integers and a difference
  of two clock readings, none of which is a negative zero. A float literal that is no binary
  fraction (\<^verbatim>\<open>0.1f\<close>) is the rounding of its decimal value. A clock reading is a
  finite double, given as a real number. The matrix type of glm and its functions are
  parameters.
\<close>

type_synonym GLuint = "32 word"
type_synonym GLint = int
type_synonym vec3 = "real \<times> real \<times> real"

datatype fp = Finite real | PosInf | NegInf | NaN

fun fp_mul :: "(real \<Rightarrow> fp) \<Rightarrow> fp \<Rightarrow> fp \<Rightarrow> fp" where
  "fp_mul rnd (Finite x) (Finite y) = rnd (x * y)"
| "fp_mul rnd (Finite x) PosInf = (if 0 < x then PosInf else if x < 0 then NegInf else NaN)"
| "fp_mul rnd (Finite x) NegInf = (if 0 < x then NegInf else if x < 0 then PosInf else NaN)"
| "fp_mul rnd PosInf (Finite y) = (if 0 < y then PosInf else if y < 0 then NegInf else NaN)"
| "fp_mul rnd NegInf (Finite y) = (if 0 < y then NegInf else if y < 0 then PosInf else NaN)"
| "fp_mul rnd PosInf PosInf = PosInf"
| "fp_mul rnd PosInf NegInf = NegInf"
| "fp_mul rnd NegInf PosInf = NegInf"
| "fp_mul rnd NegInf NegInf = PosInf"
| "fp_mul rnd NaN b = NaN"
| "fp_mul rnd a NaN = NaN"

fun fp_div :: "(real \<Rightarrow> fp) \<Rightarrow> fp \<Rightarrow> fp \<Rightarrow> fp" where
  "fp_div rnd (Finite x) (Finite y) =
     (if y \<noteq> 0 then rnd (x / y)
      else if 0 < x then PosInf
      else if x < 0 then NegInf
      else NaN)"
| "fp_div rnd (Finite x) PosInf = Finite 0"
| "fp_div rnd (Finite x) NegInf = Finite 0"
| "fp_div rnd PosInf (Finite y) = (if 0 \<le> y then PosInf else NegInf)"
| "fp_div rnd NegInf (Finite y) = (if 0 \<le> y then NegInf else PosInf)"
| "fp_div rnd PosInf PosInf = NaN"
| "fp_div rnd PosInf NegInf = NaN"
| "fp_div rnd NegInf PosInf = NaN"
| "fp_div rnd NegInf NegInf = NaN"
| "fp_div rnd NaN b = NaN"
| "fp_div rnd a NaN = NaN"

text \<open>The comparison \<^verbatim>\<open>a >= b\<close>; it is false when an operand is a NaN.\<close>

fun fp_ge :: "fp \<Rightarrow> fp \<Rightarrow> bool" where
  "fp_ge (Finite x) (Finite y) = (y \<le> x)"
| "fp_ge (Finite x) PosInf = False"
| "fp_ge (Finite x) NegInf = True"
| "fp_ge PosInf (Finite y) = True"
| "fp_ge PosInf PosInf = True"
| "fp_ge PosInf NegInf = True"
| "fp_ge NegInf (Finite y) = False"
| "fp_ge NegInf PosInf = False"
| "fp_ge NegInf NegInf = True"
| "fp_ge NaN b = False"
| "fp_ge a NaN = False"

text \<open>The conversion of a value to another format.\<close>

fun fp_cast :: "(real \<Rightarrow> fp) \<Rightarrow> fp \<Rightarrow> fp" where
  "fp_cast rnd (Finite x) = rnd x"
| "fp_cast rnd PosInf = PosInf"
| "fp_cast rnd NegInf = NegInf"
| "fp_cast rnd NaN = NaN"

datatype arg = U GLuint | D int | S string | FD fp

datatype shader_type = GL_VERTEX_SHADER | GL_FRAGMENT_SHADER

datatype gl_string = GL_VENDOR | GL_RENDERER | GL_VERSION | GL_SHADING_LANGUAGE_VERSION

datatype buffer_target = GL_ARRAY_BUFFER | GL_ELEMENT_ARRAY_BUFFER

datatype glfw_hint =
    GLFW_CLIENT_API
  | GLFW_CONTEXT_VERSION_MAJOR
  | GLFW_CONTEXT_VERSION_MINOR
  | GLFW_OPENGL_FORWARD_COMPAT
  | GLFW_OPENGL_PROFILE

datatype hint_value = GLFW_OPENGL_API | HintInt int | GL_TRUE | GLFW_OPENGL_CORE_PROFILE

text \<open>The vertex layout of \<^verbatim>\<open>Cube.h\<close>: a position and an RGBA colour.\<close>

record Vertex =
  pos :: vec3
  clr :: "8 word \<times> 8 word \<times> 8 word \<times> 8 word"

datatype attrib_type = GL_FLOAT | GL_UNSIGNED_BYTE

datatype 'm call =
    Stdout string "arg list"
  | Stderr string "arg list"
  | GlCreateShader shader_type
  | GlShaderSource GLuint string
  | GlCompileShader GLuint
  | GlDeleteShader GLuint
  | GlCreateProgram
  | GlAttachShader GLuint GLuint
  | GlBindAttribLocation GLuint nat string
  | GlBindFragDataLocation GLuint nat string
  | GlLinkProgram GLuint
  | GlDeleteProgram GLuint
  | GlEnableDepthTest
  | GlClearColor fp fp fp fp
  | GlGenVertexArrays
  | GlGenBuffers
  | GlBindVertexArray GLuint
  | GlBindBuffer buffer_target GLuint
  | GlBufferDataVertices "Vertex list"
  | GlBufferDataIndices "16 word list"
  | GlVertexAttribPointer nat nat attrib_type bool nat nat
  | GlEnableVertexAttribArray nat
  | GlDeleteVertexArrays GLuint
  | GlDeleteBuffers GLuint GLuint
  | GlViewport int int int int
  | GlClear
  | GlUseProgram GLuint
  | GlUniformMatrix4fv GLint 'm
  | GlUniform1f GLint fp
  | GlDrawElementsTriangles nat nat
  | GlfwInit
  | GlfwWindowHint glfw_hint hint_value
  | GlfwCreateWindow int int string
  | GlfwSetWindowUserPointer nat
  | GlfwSetFramebufferSizeCallback nat
  | GlfwSetKeyCallback nat
  | GlfwMakeContextCurrent nat
  | GlfwSwapInterval int
  | GladLoadGL
  | GlfwDestroyWindow nat
  | GlfwTerminate
  | GlfwSwapBuffers nat
  | GlfwSetWindowShouldClose nat int
  | GlfwSetWindowTitle nat string "arg list"
  | GlfwPollEvents

text \<open>
  The world outside the program: the trace of calls, and the close flag of the window
  (what \<^verbatim>\<open>glfwWindowShouldClose\<close> reads).
\<close>

record 'm world =
  trace :: "'m call list"
  shouldClose :: bool

text \<open>
  The answers of the libraries. \<open>fopen\<close> gives the file's content, or \<open>None\<close> when
  the file cannot be opened; \<open>gl_errors\<close> the error codes that successive
  \<^verbatim>\<open>glGetError\<close> calls return before \<^verbatim>\<open>GL_NO_ERROR\<close>; \<open>debug_build\<close> says
  whether \<^verbatim>\<open>NDEBUG\<close> is undefined, so that \<^verbatim>\<open>GL_ERROR_DBG\<close> checks for errors;
  \<open>round_double\<close> and \<open>round_float\<close> how the platform rounds a real number to a
  \<^verbatim>\<open>double\<close> and to a \<^verbatim>\<open>float\<close>, an infinity when it is out of range.
\<close>

record 'm driver =
  debug_build :: bool
  round_double :: "real \<Rightarrow> fp"
  round_float :: "real \<Rightarrow> fp"
  fopen :: "'m call list \<Rightarrow> string \<Rightarrow> string option"
  malloc_ok :: "'m call list \<Rightarrow> nat \<Rightarrow> bool"
  glCreateShader :: "'m call list \<Rightarrow> shader_type \<Rightarrow> GLuint"
  compile_status :: "'m call list \<Rightarrow> GLuint \<Rightarrow> bool"
  glGetShaderInfoLog :: "'m call list \<Rightarrow> GLuint \<Rightarrow> string"
  glCreateProgram :: "'m call list \<Rightarrow> GLuint"
  link_status :: "'m call list \<Rightarrow> GLuint \<Rightarrow> bool"
  glGetProgramInfoLog :: "'m call list \<Rightarrow> GLuint \<Rightarrow> string"
  glGetUniformLocation :: "'m call list \<Rightarrow> GLuint \<Rightarrow> string \<Rightarrow> GLint"
  glGetString :: "'m call list \<Rightarrow> gl_string \<Rightarrow> string"
  glGetNumExtensions :: "'m call list \<Rightarrow> GLint"
  glGetStringi :: "'m call list \<Rightarrow> nat \<Rightarrow> string option"
  gl_errors :: "'m call list \<Rightarrow> GLuint list"
  glGenVertexArray :: "'m call list \<Rightarrow> GLuint"
  glGenBufferPair :: "'m call list \<Rightarrow> GLuint \<times> GLuint"
  glfwInit :: "'m call list \<Rightarrow> bool"
  glfwCreateWindow :: "'m call list \<Rightarrow> int \<Rightarrow> int \<Rightarrow> string \<Rightarrow> nat"
  gladLoadGL :: "'m call list \<Rightarrow> bool"

text \<open>
  The functions of glm that the program calls, its two constants, and the matrix its
  default constructor gives.
\<close>

record 'm glm =
  half_pi_float :: real
  half_pi_double :: real
  mat4_default :: 'm
  perspective :: "fp \<Rightarrow> fp \<Rightarrow> fp \<Rightarrow> fp \<Rightarrow> 'm"
  translate :: "vec3 \<Rightarrow> 'm"
  rotate :: "'m \<Rightarrow> fp \<Rightarrow> fp \<times> fp \<times> fp \<Rightarrow> 'm"
  mat4_mult :: "'m \<Rightarrow> 'm \<Rightarrow> 'm"

definition emit :: "'m call \<Rightarrow> 'm world \<Rightarrow> 'm world" where
  "emit c wd = wd\<lparr>trace := trace wd @ [c]\<rparr>"

section \<open>ShaderHelpers.h\<close>

text \<open>
  \<^verbatim>\<open>info\<close> and \<^verbatim>\<open>warn\<close> print a formatted line to stdout and to stderr. The trace
  keeps the format string and the arguments; the rendering of the C library is not
  modelled.
\<close>

definition info :: "string \<Rightarrow> arg list \<Rightarrow> 'm world \<Rightarrow> 'm world" where
  "info format args wd = emit (Stdout format args) wd"

definition warn :: "string \<Rightarrow> arg list \<Rightarrow> 'm world \<Rightarrow> 'm world" where
  "warn format args wd = emit (Stderr format args) wd"

text \<open>
  \<^verbatim>\<open>getGLError(action, ignore, file, line)\<close>: one warning for each pending
  error, unless \<open>ignore\<close> is set. The source loops until \<^verbatim>\<open>glGetError\<close> answers
  \<^verbatim>\<open>GL_NO_ERROR\<close> (0); the driver gives the finite list of codes before that
  answer, and \<open>getGLError_turn\<close> is one turn of the loop, for the code \<open>e\<close> read.
  The function returns the last error reported, \<^verbatim>\<open>GL_NO_ERROR\<close> when there was
  none.
\<close>

definition getGLError_turn ::
  "string \<Rightarrow> bool \<Rightarrow> string option \<Rightarrow> int \<Rightarrow> GLuint \<times> 'm world \<Rightarrow> GLuint \<Rightarrow> GLuint \<times> 'm world" where
  "getGLError_turn action ignore file line s e =
     (let (err, wd) = s
      in if e \<noteq> 0 \<and> \<not> ignore then
           (let wd1 = (case file of None \<Rightarrow> wd | Some f \<Rightarrow> emit (Stderr ''%s:'' [S f]) wd);
                wd2 = (if line \<noteq> 0 then emit (Stderr ''%d:'' [D line]) wd1 else wd1)
            in (e, warn ''GL error 0x%x at %s'' [U e, S action] wd2))
         else (err, wd))"

definition getGLError ::
  "'m driver \<Rightarrow> string \<Rightarrow> bool \<Rightarrow> string option \<Rightarrow> int \<Rightarrow> 'm world \<Rightarrow> GLuint \<times> 'm world" where
  "getGLError drv action ignore file line wd =
     foldl (getGLError_turn action ignore file line) (0, wd)
       (takeWhile (\<lambda>e. e \<noteq> 0) (gl_errors drv (trace wd)))"

text \<open>
  \<^verbatim>\<open>GL_ERROR_DBG(action)\<close> is \<^verbatim>\<open>getGLError(action, false, __FILE__, __LINE__)\<close>
  in a debug build and nothing otherwise.
\<close>

definition GL_ERROR_DBG :: "'m driver \<Rightarrow> string \<Rightarrow> string \<Rightarrow> int \<Rightarrow> 'm world \<Rightarrow> 'm world" where
  "GL_ERROR_DBG drv action file line wd =
     (if debug_build drv then snd (getGLError drv action False (Some file) line wd) else wd)"

definition printGLInfo :: "'m driver \<Rightarrow> 'm world \<Rightarrow> 'm world" where
  "printGLInfo drv wd =
     (let wd1 = info ''OpenGL: %s %s %s''
                  [S (glGetString drv (trace wd) GL_VENDOR),
                   S (glGetString drv (trace wd) GL_RENDERER),
                   S (glGetString drv (trace wd) GL_VERSION)] wd
      in info ''OpenGL Shading language: %s''
           [S (glGetString drv (trace wd1) GL_SHADING_LANGUAGE_VERSION)] wd1)"

definition listGLExtensions :: "'m driver \<Rightarrow> 'm world \<Rightarrow> 'm world" where
  "listGLExtensions drv wd =
     (let num = glGetNumExtensions drv (trace wd);
          wd1 = info ''GL extensions supported: %d'' [D num] wd
      in if num < 1 then wd1
         else foldl (\<lambda>wd' i. case glGetStringi drv (trace wd') i of
                                None \<Rightarrow> wd'
                              | Some ext \<Rightarrow> info ''  %s'' [S ext] wd')
                wd1 [0 ..< nat num])"

text \<open>
  \<^verbatim>\<open>printInfoLog\<close> reads the log into a buffer of 16384 bytes and ends it at index
  16383.
\<close>

definition printInfoLog :: "'m driver \<Rightarrow> GLuint \<Rightarrow> bool \<Rightarrow> 'm world \<Rightarrow> 'm world" where
  "printInfoLog drv obj is_program wd =
     (let log = (if is_program then glGetProgramInfoLog drv (trace wd) obj
                 else glGetShaderInfoLog drv (trace wd) obj)
      in emit (Stderr (''%s'' @ [CHR 0x0A]) [S (take 16383 log)]) wd)"

definition shaderCreateAndCompile ::
  "'m driver \<Rightarrow> shader_type \<Rightarrow> string \<Rightarrow> 'm world \<Rightarrow> GLuint \<times> 'm world" where
  "shaderCreateAndCompile drv type source wd =
     (let shader = glCreateShader drv (trace wd) type;
          wd1 = emit (GlCreateShader type) wd;
          wd2 = info ''created shader object %u'' [U shader] wd1;
          wd3 = emit (GlShaderSource shader source) wd2;
          wd4 = info ''compiling shader object %u'' [U shader] wd3;
          wd5 = emit (GlCompileShader shader) wd4
      in if \<not> compile_status drv (trace wd5) shader
         then (0, emit (GlDeleteShader shader)
                    (printInfoLog drv shader False
                       (warn ''Failed to compile shader'' [] wd5)))
         else (shader, wd5))"

text \<open>
  The file is read whole; the source handed to the compiler is a C string, so it ends
  at the first NUL byte.
\<close>

definition shaderCreateFromFileAndCompile ::
  "'m driver \<Rightarrow> shader_type \<Rightarrow> string \<Rightarrow> 'm world \<Rightarrow> GLuint \<times> 'm world" where
  "shaderCreateFromFileAndCompile drv type filename wd =
     (let wd1 = info (''loading shader file '' @ [CHR 0x27] @ ''%s'' @ [CHR 0x27]) [S filename] wd
      in case fopen drv (trace wd1) filename of
           None \<Rightarrow>
             (0, warn (''Failed to open shader file '' @ [CHR 0x27] @ ''%s'' @ [CHR 0x27])
                   [S filename] wd1)
         | Some content \<Rightarrow>
             if \<not> malloc_ok drv (trace wd1) (length content + 1)
             then (0, warn (''Failed to allocate memory for shader file ''
                              @ [CHR 0x27] @ ''%s'' @ [CHR 0x27]) [S filename] wd1)
             else shaderCreateAndCompile drv type
                    (takeWhile (\<lambda>c. c \<noteq> CHR 0x00) content) wd1)"

definition programCreate ::
  "'m driver \<Rightarrow> GLuint \<Rightarrow> GLuint \<Rightarrow> 'm world \<Rightarrow> GLuint \<times> 'm world" where
  "programCreate drv vertex_shader fragment_shader wd =
     (let prog = glCreateProgram drv (trace wd);
          wd1 = info ''created program %u'' [U prog] (emit GlCreateProgram wd);
          wd2 = (if vertex_shader \<noteq> 0 then emit (GlAttachShader prog vertex_shader) wd1 else wd1);
          wd3 = (if fragment_shader \<noteq> 0 then emit (GlAttachShader prog fragment_shader) wd2
                 else wd2);
          wd4 = emit (GlBindAttribLocation prog 0 ''pos'') wd3;
          wd5 = emit (GlBindAttribLocation prog 1 ''nrm'') wd4;
          wd6 = emit (GlBindAttribLocation prog 2 ''clr'') wd5;
          wd7 = emit (GlBindAttribLocation prog 3 ''tex'') wd6;
          wd8 = emit (GlBindFragDataLocation prog 0 ''color'') wd7;
          wd9 = emit (GlLinkProgram prog) (info ''linking program %u'' [U prog] wd8)
      in if \<not> link_status drv (trace wd9) prog
         then (0, emit (GlDeleteProgram prog)
                    (printInfoLog drv prog True (warn ''Failed to link program!'' [] wd9)))
         else (prog, wd9))"

definition programCreateFromFiles ::
  "'m driver \<Rightarrow> string \<Rightarrow> string \<Rightarrow> 'm world \<Rightarrow> GLuint \<times> 'm world" where
  "programCreateFromFiles drv vs fs wd =
     (let (id_vs, wd1) = shaderCreateFromFileAndCompile drv GL_VERTEX_SHADER vs wd;
          (id_fs, wd2) = shaderCreateFromFileAndCompile drv GL_FRAGMENT_SHADER fs wd1;
          (prog, wd3) = programCreate drv id_vs id_fs wd2;
          wd4 = emit (GlDeleteShader id_vs) (info ''destroying shader object %u'' [U id_vs] wd3);
          wd5 = emit (GlDeleteShader id_fs) (info ''destroying shader object %u'' [U id_fs] wd4)
      in (prog, wd5))"

definition initGLState :: "'m driver \<Rightarrow> 'm world \<Rightarrow> 'm world" where
  "initGLState drv wd =
     emit (GlClearColor (round_float drv (3/10)) (round_float drv (3/10))
             (round_float drv (3/10)) (Finite 1))
       (emit GlEnableDepthTest (listGLExtensions drv (printGLInfo drv wd)))"

section \<open>Cube.h\<close>

definition vtx :: "real \<Rightarrow> real \<Rightarrow> real \<Rightarrow> 8 word \<Rightarrow> 8 word \<Rightarrow> 8 word \<Rightarrow> 8 word \<Rightarrow> Vertex" where
  "vtx x y z r g b a = \<lparr>pos = (x, y, z), clr = (r, g, b, a)\<rparr>"

definition basicCubeGeometry :: "Vertex list" where
  "basicCubeGeometry =
    [vtx (-1) (-1) 1 255 0 0 255, vtx 1 (-1) 1 192 0 0 255,
     vtx (-1) 1 1 192 0 0 255, vtx 1 1 1 128 0 0 255,
     vtx 1 (-1) (-1) 0 255 255 255, vtx (-1) (-1) (-1) 0 192 192 255,
     vtx 1 1 (-1) 0 192 192 255, vtx (-1) 1 (-1) 0 128 128 255,
     vtx (-1) (-1) (-1) 0 255 0 255, vtx (-1) (-1) 1 0 192 0 255,
     vtx (-1) 1 (-1) 0 192 0 255, vtx (-1) 1 1 0 128 0 255,
     vtx 1 (-1) 1 255 0 255 255, vtx 1 (-1) (-1) 192 0 192 255,
     vtx 1 1 1 192 0 192 255, vtx 1 1 (-1) 128 0 128 255,
     vtx (-1) 1 1 0 0 255 255, vtx 1 1 1 0 0 192 255,
     vtx (-1) 1 (-1) 0 0 192 255, vtx 1 1 (-1) 0 0 128 255,
     vtx 1 (-1) 1 255 255 0 255, vtx (-1) (-1) 1 192 192 0 255,
     vtx 1 (-1) (-1) 192 192 0 255, vtx (-1) (-1) (-1) 128 128 0 255]"

definition basicCubeConnectivity :: "16 word list" where
  "basicCubeConnectivity =
    [0, 1, 2, 2, 1, 3,
     4, 5, 6, 6, 5, 7,
     8, 9, 10, 10, 9, 11,
     12, 13, 14, 14, 13, 15,
     16, 17, 18, 18, 17, 19,
     20, 21, 22, 22, 21, 23]"

text \<open>
  \<^verbatim>\<open>sizeof(Vertex)\<close>: three floats and four bytes, 16 bytes; an index is two bytes.
  Offsets in the vertex: \<open>pos\<close> at 0, \<open>clr\<close> at 12.
\<close>

definition sizeof_Vertex :: nat where
  "sizeof_Vertex = 16"

record 'm Cube =
  vbo :: "GLuint \<times> GLuint"
  vao :: GLuint
  model :: 'm

definition Cube_destroy :: "'m Cube \<times> 'm world \<Rightarrow> 'm Cube \<times> 'm world" where
  "Cube_destroy s =
     (let (c, wd) = s;
          wd1 = emit (GlBindVertexArray 0) wd;
          (c1, wd2) =
            (if vao c \<noteq> 0
             then (c\<lparr>vao := 0\<rparr>,
                   emit (GlDeleteVertexArrays (vao c))
                     (info ''Cube: deleting VAO %u'' [U (vao c)] wd1))
             else (c, wd1))
      in if fst (vbo c1) \<noteq> 0 \<or> snd (vbo c1) \<noteq> 0
         then (c1\<lparr>vbo := (0, 0)\<rparr>,
               emit (GlDeleteBuffers (fst (vbo c1)) (snd (vbo c1)))
                 (info ''Cube: deleting VBOs %u %u'' [U (fst (vbo c1)), U (snd (vbo c1))] wd2))
         else (c1, wd2))"

definition Cube_initBasic ::
  "'m driver \<Rightarrow> 'm glm \<Rightarrow> 'm Cube \<times> 'm world \<Rightarrow> 'm Cube \<times> 'm world" where
  "Cube_initBasic drv g s =
     (let (c, wd) = s;
          c1 = c\<lparr>vao := glGenVertexArray drv (trace wd)\<rparr>;
          wd1 = emit GlGenVertexArrays wd;
          wd2 = emit (GlBindVertexArray (vao c1)) wd1;
          wd3 = info ''Cube: created VAO %u'' [U (vao c1)] wd2;
          c2 = c1\<lparr>vbo := glGenBufferPair drv (trace wd3)\<rparr>;
          wd4 = emit GlGenBuffers wd3;
          wd5 = emit (GlBindBuffer GL_ARRAY_BUFFER (fst (vbo c2))) wd4;
          wd6 = emit (GlBufferDataVertices basicCubeGeometry) wd5;
          wd7 = info ''Cube: created VBO %u for %u bytes of vertex data''
                  [U (fst (vbo c2)), U (of_nat (sizeof_Vertex * length basicCubeGeometry))] wd6;
          wd8 = emit (GlBindBuffer GL_ELEMENT_ARRAY_BUFFER (snd (vbo c2))) wd7;
          wd9 = emit (GlBufferDataIndices basicCubeConnectivity) wd8;
          wd10 = info ''Cube: created VBO %u for %u bytes of element data''
                   [U (snd (vbo c2)), U (of_nat (2 * length basicCubeConnectivity))] wd9;
          wd11 = emit (GlVertexAttribPointer 0 3 GL_FLOAT False sizeof_Vertex 0) wd10;
          wd12 = emit (GlVertexAttribPointer 2 4 GL_UNSIGNED_BYTE True sizeof_Vertex 12) wd11;
          wd13 = emit (GlEnableVertexAttribArray 0) wd12;
          wd14 = emit (GlEnableVertexAttribArray 2) wd13;
          wd15 = emit (GlBindVertexArray 0) wd14;
          wd16 = emit (GlBindBuffer GL_ARRAY_BUFFER 0) wd15;
          wd17 = emit (GlBindBuffer GL_ELEMENT_ARRAY_BUFFER 0) wd16;
          c3 = c2\<lparr>model := mat4_default g\<rparr>
      in (c3, GL_ERROR_DBG drv ''cube initialization'' ''Cube.h'' 106 wd17))"

section \<open>BaseApplication.h\<close>

text \<open>
  Constants of \<^verbatim>\<open>glfw3.h\<close>, which is not part of the repository: the values of
  GLFW 3.
\<close>

definition GLFW_KEY_LAST :: int where
  "GLFW_KEY_LAST = 348"

definition GLFW_KEY_ESCAPE :: int where
  "GLFW_KEY_ESCAPE = 256"

definition GLFW_RELEASE :: int where
  "GLFW_RELEASE = 0"

definition GLFW_PRESS :: int where
  "GLFW_PRESS = 1"

definition GLFW_REPEAT :: int where
  "GLFW_REPEAT = 2"

text \<open>
  The application state. \<open>win\<close> is the window pointer, 0 for \<^verbatim>\<open>NULL\<close>. The two key
  arrays have \<^verbatim>\<open>GLFW_KEY_LAST + 1\<close> entries.
\<close>

record 'm BaseApplication =
  win :: nat
  width :: int
  height :: int
  flags :: "32 word"
  timeCur :: real
  timeDelta :: fp
  avg_frametime :: fp
  avg_fps :: fp
  pressedKeys :: "bool list"
  releasedKeys :: "bool list"
  cube :: "'m Cube"
  program :: GLuint
  locProjection :: GLint
  locModelView :: GLint
  locTime :: GLint
  locCameraPos :: GLint
  projection :: 'm
  view :: 'm

type_synonym 'm state = "'m BaseApplication \<times> 'm world"

definition destroyShaders :: "'m state \<Rightarrow> 'm state" where
  "destroyShaders s =
     (let (app, wd) = s
      in if program app \<noteq> 0
         then (app\<lparr>program := 0\<rparr>,
               emit (GlDeleteProgram (program app))
                 (info ''deleting program %u'' [U (program app)] wd))
         else (app, wd))"

definition initShaders ::
  "'m driver \<Rightarrow> string \<Rightarrow> string \<Rightarrow> 'm state \<Rightarrow> bool \<times> 'm state" where
  \<open>initShaders drv vs fs s =
     (let (app, wd) = destroyShaders s;
          (prog, wd1) = programCreateFromFiles drv vs fs wd;
          app1 = app\<lparr>program := prog\<rparr>
      in if program app1 = 0 then (False, app1, wd1)
         else
           (let app2 = app1\<lparr>locProjection := glGetUniformLocation drv (trace wd1) (program app1) ''projection''\<rparr>;
                app3 = app2\<lparr>locModelView := glGetUniformLocation drv (trace wd1) (program app2) ''modelView''\<rparr>;
                app4 = app3\<lparr>locTime := glGetUniformLocation drv (trace wd1) (program app3) ''time''\<rparr>;
                app5 = app4\<lparr>locCameraPos := glGetUniformLocation drv (trace wd1) (program app4) ''cameraPosition''\<rparr>;
                wd2 = info ''program %u: location for "projection" uniform: %d''
                        [U (program app5), D (locProjection app5)] wd1;
                wd3 = info ''program %u: location for "modelView" uniform: %d''
                        [U (program app5), D (locModelView app5)] wd2;
                wd4 = info ''program %u: location for "time" uniform: %d''
                        [U (program app5), D (locTime app5)] wd3;
                wd5 = info ''program %u: location for "locCameraPos" uniform: %d''
                        [U (program app5), D (locCameraPos app5)] wd4
            in (True, app5, wd5)))\<close>

text \<open>
  \<^verbatim>\<open>initBaseApp\<close>. The fields it does not assign keep the values they had. The loop
  over the key codes sets every entry of both arrays. \<open>t\<close> is the clock reading taken
  at the end.
\<close>

definition initBaseApp ::
  "'m driver \<Rightarrow> 'm glm \<Rightarrow> real \<Rightarrow> int \<Rightarrow> int \<Rightarrow> string \<Rightarrow> 'm state \<Rightarrow> bool \<times> 'm state" where
  "initBaseApp drv g t w h title s =
     (let (app0, wd0) = s;
          app = app0\<lparr>win := 0, width := w, height := h, flags := 1,
                     avg_frametime := Finite (- 1), avg_fps := Finite (- 1),
                     pressedKeys := replicate (nat (GLFW_KEY_LAST + 1)) False,
                     releasedKeys := replicate (nat (GLFW_KEY_LAST + 1)) False,
                     cube := (cube app0)\<lparr>vbo := (0, 0), vao := 0\<rparr>,
                     program := 0\<rparr>;
          wd1 = info ''initializing GLFW'' [] wd0;
          wd2 = emit GlfwInit wd1
      in if \<not> glfwInit drv (trace wd1) then (False, app, warn ''Failed to initialze GLFW'' [] wd2)
         else
           (let wd3 = emit (GlfwWindowHint GLFW_CLIENT_API GLFW_OPENGL_API) wd2;
                wd4 = emit (GlfwWindowHint GLFW_CONTEXT_VERSION_MAJOR (HintInt 3)) wd3;
                wd5 = emit (GlfwWindowHint GLFW_CONTEXT_VERSION_MINOR (HintInt 2)) wd4;
                wd6 = emit (GlfwWindowHint GLFW_OPENGL_FORWARD_COMPAT GL_TRUE) wd5;
                wd7 = emit (GlfwWindowHint GLFW_OPENGL_PROFILE GLFW_OPENGL_CORE_PROFILE) wd6;
                wd8 = info ''creating window and OpenGL context'' [] wd7;
                app1 = app\<lparr>win := glfwCreateWindow drv (trace wd8) w h title\<rparr>;
                wd9 = emit (GlfwCreateWindow w h title) wd8
            in if win app1 = 0
               then (False, app1, warn ''failed to get window with OpenGL 3.2 core context'' [] wd9)
               else
                 (let wd10 = emit (GlfwSetWindowUserPointer (win app1)) wd9;
                      wd11 = emit (GlfwSetFramebufferSizeCallback (win app1)) wd10;
                      wd12 = emit (GlfwSetKeyCallback (win app1)) wd11;
                      wd13 = emit (GlfwMakeContextCurrent (win app1)) wd12;
                      wd14 = emit (GlfwSwapInterval 1) wd13;
                      wd15 = info ''initializing glad'' [] wd14;
                      wd16 = emit GladLoadGL wd15
                  in if \<not> gladLoadGL drv (trace wd15)
                     then (False, app1,
                           warn ''failed to intialize OpenGL functions via glad'' [] wd16)
                     else
                       (let wd17 = initGLState drv wd16;
                            (c, wd18) = Cube_initBasic drv g (cube app1, wd17);
                            app2 = app1\<lparr>cube := c\<rparr>;
                            app3 = app2\<lparr>timeCur := t\<rparr>
                        in (True, app3, wd18)))))"

text \<open>\<^verbatim>\<open>destroy\<close>: clean up what the application still holds.\<close>

definition destroy :: "'m state \<Rightarrow> 'm state" where
  "destroy s =
     (let (app, wd) = s
      in if flags app \<noteq> 0
         then
           (let (c, wd1) = Cube_destroy (cube app, wd);
                (app1, wd2) = destroyShaders (app\<lparr>cube := c\<rparr>, wd1);
                wd3 = (if win app1 \<noteq> 0 then emit (GlfwDestroyWindow (win app1)) wd2 else wd2)
            in (app1, emit GlfwTerminate wd3))
         else (app, wd))"

section \<open>HelloCube.cpp\<close>

definition APP_TITLE :: string where
  "APP_TITLE = ''Hello, cube!''"

definition callback_Resize :: "int \<Rightarrow> int \<Rightarrow> 'm state \<Rightarrow> 'm state" where
  "callback_Resize w h s =
     (let (app, wd) = s;
          wd1 = info ''new framebuffer size: %dx%d pixels'' [D w, D h] wd
      in (app\<lparr>width := w, height := h\<rparr>, wd1))"

text \<open>The shaders loaded on the number keys: a vertex and a fragment shader each.\<close>

definition shaders :: "(string \<times> string) list" where
  "shaders =
    [(''shaders/minimal.vs.glsl'', ''shaders/minimal.fs.glsl''),
     (''shaders/color.vs.glsl'', ''shaders/color.fs.glsl''),
     (''shaders/cut.vs.glsl'', ''shaders/cut.fs.glsl''),
     (''shaders/wobble.vs.glsl'', ''shaders/color.fs.glsl''),
     (''shaders/experimental.vs.glsl'', ''shaders/experimental.fs.glsl''),
     (''shaders/yourshader.vs.glsl'', ''shaders/yourshader.fs.glsl''),
     (''shaders/yourshader.vs.glsl'', ''shaders/yourshader.fs.glsl''),
     (''shaders/yourshader.vs.glsl'', ''shaders/yourshader.fs.glsl''),
     (''shaders/yourshader.vs.glsl'', ''shaders/yourshader.fs.glsl''),
     (''shaders/yourshader.vs.glsl'', ''shaders/yourshader.fs.glsl'')]"

text \<open>
  What a key does when it goes down (the body of \<^verbatim>\<open>if (!app->pressedKeys[key])\<close>):
  a digit loads its shader pair, the character codes of \<^verbatim>\<open>'0'\<close> and \<^verbatim>\<open>'9'\<close>
  being 48 and 57; Escape asks the window to close. The window the callback is given is
  the one of the application, \<open>win app\<close>.
\<close>

definition handle_key :: "'m driver \<Rightarrow> int \<Rightarrow> 'm state \<Rightarrow> 'm state" where
  "handle_key drv key s =
     (if 48 \<le> key \<and> key \<le> 57
      then snd (initShaders drv (fst (shaders ! nat (key - 48))) (snd (shaders ! nat (key - 48))) s)
      else if key = GLFW_KEY_ESCAPE
      then (let (app, wd) = s
            in (app, (emit (GlfwSetWindowShouldClose (win app) 1) wd)\<lparr>shouldClose := True\<rparr>))
      else s)"

definition callback_Keyboard ::
  "'m driver \<Rightarrow> int \<Rightarrow> int \<Rightarrow> int \<Rightarrow> int \<Rightarrow> 'm state \<Rightarrow> 'm state" where
  "callback_Keyboard drv key scancode action mods s =
     (let (app, wd) = s
      in if key < 0 \<or> key > GLFW_KEY_LAST
         then (app, warn ''invalid key code %d?!'' [D key] wd)
         else if action = GLFW_RELEASE
         then (app\<lparr>pressedKeys := (pressedKeys app)[nat key := False]\<rparr>, wd)
         else
           (let (app1, wd1) = (if \<not> pressedKeys app ! nat key then handle_key drv key s else s)
            in (app1\<lparr>pressedKeys := (pressedKeys app1)[nat key := True]\<rparr>, wd1)))"

text \<open>
  The drawing function. \<^verbatim>\<open>(float)app->width/(float)app->height\<close> converts both
  sizes to floats and divides them, possibly by zero. The angle of the rotation is the
  product of two doubles, cast to a float. \<^verbatim>\<open>glUniform1f\<close> takes a float, so the
  time it is given is converted.
\<close>

definition displayFunc :: "'m driver \<Rightarrow> 'm glm \<Rightarrow> 'm state \<Rightarrow> 'm state" where
  "displayFunc drv g s =
     (let (app, wd) = s;
          app1 = app\<lparr>projection :=
                    perspective g (Finite (half_pi_float g))
                      (fp_div (round_float drv) (round_float drv (real_of_int (width app)))
                         (round_float drv (real_of_int (height app))))
                      (round_float drv (1/10)) (Finite 10)\<rparr>;
          app2 = app1\<lparr>view := translate g (0, 0, - 4)\<rparr>;
          app3 = app2\<lparr>cube := (cube app2)\<lparr>model :=
                    rotate g (model (cube app2))
                      (fp_cast (round_float drv)
                         (fp_mul (round_double drv) (Finite (half_pi_double g)) (timeDelta app2)))
                      (round_float drv (8/10), round_float drv (6/10), round_float drv (1/10))\<rparr>\<rparr>;
          modelView = mat4_mult g (view app3) (model (cube app3));
          wd1 = emit (GlViewport 0 0 (width app3) (height app3)) wd;
          wd2 = emit GlClear wd1;
          wd3 = emit (GlUseProgram (program app3)) wd2;
          wd4 = emit (GlUniformMatrix4fv (locProjection app3) (projection app3)) wd3;
          wd5 = emit (GlUniformMatrix4fv (locModelView app3) modelView) wd4;
          wd6 = emit (GlUniform1f (locTime app3) (round_float drv (timeCur app3))) wd5;
          wd7 = emit (GlBindVertexArray (vao (cube app3))) wd6;
          wd8 = emit (GlDrawElementsTriangles (6 * 6) 0) wd7;
          wd9 = emit (GlBindVertexArray 0) wd8;
          wd10 = emit (GlUseProgram 0) wd9;
          wd11 = emit (GlfwSwapBuffers (win app3)) wd10
      in (app3, GL_ERROR_DBG drv ''display function'' ''HelloCube.cpp'' 127 wd11))"

text \<open>
  The events \<^verbatim>\<open>glfwPollEvents\<close> forwards: a key event and a resize go to the
  registered callbacks; a close request of the user sets the close flag of the window.
\<close>

datatype event = KeyEvent int int int int | ResizeEvent int int | CloseRequest

definition dispatch :: "'m driver \<Rightarrow> 'm state \<Rightarrow> event \<Rightarrow> 'm state" where
  "dispatch drv s e =
     (case e of
        KeyEvent key scancode action mods \<Rightarrow> callback_Keyboard drv key scancode action mods s
      | ResizeEvent w h \<Rightarrow> callback_Resize w h s
      | CloseRequest \<Rightarrow> (fst s, (snd s)\<lparr>shouldClose := True\<rparr>))"

definition glfwPollEvents :: "'m driver \<Rightarrow> event list \<Rightarrow> 'm state \<Rightarrow> 'm state" where
  "glfwPollEvents drv evs s = foldl (dispatch drv) (fst s, emit GlfwPollEvents (snd s)) evs"

text \<open>The local variables of \<^verbatim>\<open>mainLoop\<close>.\<close>

record loop_vars =
  frame :: "32 word"
  frames_total :: "32 word"
  start_time :: real
  last_time :: real

text \<open>
  The title is formatted into a buffer of 80 bytes; the trace keeps the format and the
  arguments.
\<close>

definition title_format :: string where
  "title_format = APP_TITLE @ ''   /// AVG: %4.2fms/frame (%.1ffps)''"

text \<open>
  The statistics of a pass, the block under \<^verbatim>\<open>if (elapsed >= 1.0)\<close>: at most once
  every second the averages are refreshed and the frame counter is reset. The frame
  counter converts to a double without rounding.
\<close>

definition update_fps ::
  "'m driver \<Rightarrow> 'm BaseApplication \<times> loop_vars \<times> 'm world \<Rightarrow>
   'm BaseApplication \<times> loop_vars \<times> 'm world" where
  "update_fps drv s =
     (let (app, lv, wd) = s;
          elapsed = round_double drv (timeCur app - last_time lv)
      in if fp_ge elapsed (Finite 1)
         then
           (let app1 = app\<lparr>avg_frametime :=
                         fp_div (round_double drv)
                           (fp_mul (round_double drv) (Finite 1000) elapsed)
                           (Finite (real (unat (frame lv))))\<rparr>;
                app2 = app1\<lparr>avg_fps :=
                         fp_div (round_double drv) (Finite (real (unat (frame lv)))) elapsed\<rparr>;
                lv1 = lv\<lparr>last_time := timeCur app2\<rparr>;
                lv2 = lv1\<lparr>frames_total := frames_total lv1 + frame lv1\<rparr>;
                lv3 = lv2\<lparr>frame := 0\<rparr>;
                wd1 = emit (GlfwSetWindowTitle (win app2) title_format
                              [FD (avg_frametime app2), FD (avg_fps app2)]) wd;
                wd2 = info ''frame time: %4.2fms/frame (%.1ffps)''
                        [FD (avg_frametime app2), FD (avg_fps app2)] wd1
            in (app2, lv3, wd2))
         else (app, lv, wd))"

text \<open>
  One pass through the body of the \<^verbatim>\<open>while\<close> loop: \<open>now\<close> is the clock reading and
  \<open>evs\<close> are the events delivered by \<^verbatim>\<open>glfwPollEvents\<close> at its end.
\<close>

definition loop_body ::
  "'m driver \<Rightarrow> 'm glm \<Rightarrow> real \<times> event list \<Rightarrow>
   'm BaseApplication \<times> loop_vars \<times> 'm world \<Rightarrow> 'm BaseApplication \<times> loop_vars \<times> 'm world" where
  "loop_body drv g inp s =
     (let (now, evs) = inp;
          (app, lv, wd) = s;
          app1 = app\<lparr>timeDelta := round_double drv (now - timeCur app)\<rparr>;
          app2 = app1\<lparr>timeCur := now\<rparr>;
          (app3, lv1, wd1) = update_fps drv (app2, lv, wd);
          (app4, wd2) = displayFunc drv g (app3, wd1);
          lv2 = lv1\<lparr>frame := frame lv1 + 1\<rparr>;
          (app5, wd3) = glfwPollEvents drv evs (app4, wd2)
      in (app5, lv2, wd3))"

text \<open>
  The loop runs while the window is not asked to close. The inputs are a finite list,
  one entry for each pass; when they run out before the window closes the loop has
  not returned, and the result is \<open>None\<close>.
\<close>

fun while_loop ::
  "'m driver \<Rightarrow> 'm glm \<Rightarrow> (real \<times> event list) list \<Rightarrow>
   'm BaseApplication \<times> loop_vars \<times> 'm world \<Rightarrow>
   ('m BaseApplication \<times> loop_vars \<times> 'm world) option" where
  "while_loop drv g [] s = (if shouldClose (snd (snd s)) then Some s else None)"
| "while_loop drv g (inp # inps) s =
     (if shouldClose (snd (snd s)) then Some s
      else while_loop drv g inps (loop_body drv g inp s))"

text \<open>
  \<^verbatim>\<open>mainLoop\<close>: \<open>t0\<close> is the clock reading taken before the loop. The last line
  reports the frames rendered, the seconds run and their quotient.
\<close>

definition exit_format :: string where
  "exit_format = ''left main loop'' @ [CHR 0x0A] @ ''%u frames rendered in %.1fs seconds == %.1ffps''"

definition mainLoop ::
  "'m driver \<Rightarrow> 'm glm \<Rightarrow> real \<Rightarrow> (real \<times> event list) list \<Rightarrow> 'm state \<Rightarrow> 'm state option" where
  "mainLoop drv g t0 inps s =
     (let (app, wd) = s;
          lv = \<lparr>frame = 0, frames_total = 0, start_time = t0, last_time = t0\<rparr>;
          wd1 = info ''entering main loop'' [] wd
      in case while_loop drv g inps (app, lv, wd1) of
           None \<Rightarrow> None
         | Some (app1, lv1, wd2) \<Rightarrow>
             (let lv2 = lv1\<lparr>frames_total := frames_total lv1 + frame lv1\<rparr>
              in Some (app1,
                   info exit_format
                     [U (frames_total lv2),
                      FD (round_double drv (timeCur app1 - start_time lv2)),
                      FD (fp_div (round_double drv) (Finite (real (unat (frames_total lv2))))
                            (round_double drv (timeCur app1 - start_time lv2)))]
                     wd2)))"

text \<open>
  \<^verbatim>\<open>main\<close>: \<open>t_init\<close> and \<open>t0\<close> are the clock readings of \<^verbatim>\<open>initBaseApp\<close> and of
  \<^verbatim>\<open>mainLoop\<close>. The application state starts with whatever \<open>s0\<close> holds.
\<close>

definition main ::
  "'m driver \<Rightarrow> 'm glm \<Rightarrow> real \<Rightarrow> real \<Rightarrow> (real \<times> event list) list \<Rightarrow> 'm state \<Rightarrow> 'm state option" where
  "main drv g t_init t0 inps s0 =
     (let (ok, s1) = initBaseApp drv g t_init 800 600 APP_TITLE s0
      in if ok
         then
           (let (ok2, s2) = initShaders drv ''shaders/raymarch.vs.glsl'' ''shaders/raymarch.fs.glsl'' s1
            in if \<not> ok2
               then Some (destroy (fst s2, warn ''something wrong with our shaders...'' [] (snd s2)))
               else (case mainLoop drv g t0 inps s2 of
                       None \<Rightarrow> None
                     | Some s3 \<Rightarrow> Some (destroy s3)))
         else Some (destroy s1))"

section \<open>Notions used in the statements\<close>

text \<open>
  The calls that render a frame (selecting a program, writing a uniform, drawing,
  presenting), and the part of a trace they make up; the draw calls alone; the uniform
  writes alone.
\<close>

definition gl_render :: "'m call \<Rightarrow> bool" where
  "gl_render c =
     (case c of
        GlUseProgram p \<Rightarrow> True
      | GlUniformMatrix4fv loc m \<Rightarrow> True
      | GlUniform1f loc x \<Rightarrow> True
      | GlDrawElementsTriangles n off \<Rightarrow> True
      | GlfwSwapBuffers w \<Rightarrow> True
      | _ \<Rightarrow> False)"

definition renders :: "'m world \<Rightarrow> 'm call list" where
  "renders wd = filter gl_render (trace wd)"

definition is_draw :: "'m call \<Rightarrow> bool" where
  "is_draw c = (case c of GlDrawElementsTriangles n off \<Rightarrow> True | _ \<Rightarrow> False)"

definition is_uniform :: "'m call \<Rightarrow> bool" where
  "is_uniform c =
     (case c of GlUniformMatrix4fv loc m \<Rightarrow> True | GlUniform1f loc x \<Rightarrow> True | _ \<Rightarrow> False)"

definition draws :: "'m world \<Rightarrow> nat" where
  "draws wd = length (filter is_draw (trace wd))"

text \<open>
  The fields of the application state that no input event changes: an event changes at
  most the size, the pressed keys, the program and its uniform locations.
\<close>

definition input_frame :: "'m BaseApplication \<Rightarrow> 'm BaseApplication \<Rightarrow> bool" where
  "input_frame app app' \<longleftrightarrow>
     win app' = win app \<and> flags app' = flags app \<and> timeCur app' = timeCur app \<and>
     timeDelta app' = timeDelta app \<and> avg_frametime app' = avg_frametime app \<and>
     avg_fps app' = avg_fps app \<and> releasedKeys app' = releasedKeys app \<and>
     cube app' = cube app \<and> projection app' = projection app \<and> view app' = view app"

text \<open>Events of one key, its release events, and the state with the key recorded as down.\<close>

definition is_key_event :: "int \<Rightarrow> event \<Rightarrow> bool" where
  "is_key_event key e = (case e of KeyEvent k sc a m \<Rightarrow> k = key | _ \<Rightarrow> False)"

definition is_release_of :: "int \<Rightarrow> event \<Rightarrow> bool" where
  "is_release_of key e =
     (case e of KeyEvent k sc a m \<Rightarrow> k = key \<and> a = GLFW_RELEASE | _ \<Rightarrow> False)"

definition mark_pressed :: "int \<Rightarrow> 'm state \<Rightarrow> 'm state" where
  "mark_pressed key s = ((fst s)\<lparr>pressedKeys := (pressedKeys (fst s))[nat key := True]\<rparr>, snd s)"

text \<open>
  The states the program can be in: after \<^verbatim>\<open>initBaseApp\<close>, and from there after any
  of its operations, in any state of the outside world.
\<close>

inductive reachable :: "'m driver \<Rightarrow> 'm glm \<Rightarrow> 'm state \<Rightarrow> bool" for drv g where
  r_init: "reachable drv g (snd (initBaseApp drv g t w h title s0))"
| r_shaders: "reachable drv g s \<Longrightarrow> reachable drv g (snd (initShaders drv vs fs s))"
| r_key: "reachable drv g s \<Longrightarrow> reachable drv g (callback_Keyboard drv key sc a m s)"
| r_resize: "reachable drv g s \<Longrightarrow> reachable drv g (callback_Resize w h s)"
| r_close: "reachable drv g s \<Longrightarrow> reachable drv g (fst s, (snd s)\<lparr>shouldClose := True\<rparr>)"
| r_display: "reachable drv g s \<Longrightarrow> reachable drv g (displayFunc drv g s)"
| r_loop: "reachable drv g (app, wd) \<Longrightarrow> loop_body drv g inp (app, lv, wd) = (app', lv', wd')
           \<Longrightarrow> reachable drv g (app', wd')"
| r_destroy: "reachable drv g s \<Longrightarrow> reachable drv g (destroy s)"
| r_world: "reachable drv g (app, wd) \<Longrightarrow> reachable drv g (app, wd')"

subsection \<open>Concrete inputs\<close>

text \<open>
  A glm whose matrices are angles (a rotation adds its angle), an empty world, an
  application state before \<^verbatim>\<open>initBaseApp\<close>, a driver under which every call
  succeeds, and one under which no shader file can be opened and no program links.
  The drivers round the four float literals of the program as binary32 does and no
  other value: the clock readings of the examples, their differences, products and
  quotients are binary fractions that fit the formats.
\<close>

definition round_literals :: "real \<Rightarrow> fp" where
  "round_literals x =
     (if x = 1/10 then Finite (13421773 / 2 ^ 27)
      else if x = 3/10 then Finite (10066330 / 2 ^ 25)
      else if x = 6/10 then Finite (10066330 / 2 ^ 24)
      else if x = 8/10 then Finite (13421773 / 2 ^ 24)
      else Finite x)"

definition glm0 :: "real glm" where
  "glm0 = \<lparr>half_pi_float = 3/2, half_pi_double = 3/2, mat4_default = 0,
            perspective = (\<lambda>fovy aspect near far. 0), translate = (\<lambda>v. 0),
            rotate = (\<lambda>M a v. case a of Finite x \<Rightarrow> M + x | _ \<Rightarrow> M),
            mat4_mult = (\<lambda>A B. A + B)\<rparr>"

definition wd0 :: "real world" where
  "wd0 = \<lparr>trace = [], shouldClose = False\<rparr>"

definition app0 :: "real BaseApplication" where
  "app0 = \<lparr>win = 0, width = 0, height = 0, flags = 0, timeCur = 0, timeDelta = Finite 0,
            avg_frametime = Finite 0, avg_fps = Finite 0,
            pressedKeys = replicate 349 True, releasedKeys = replicate 349 True,
            cube = \<lparr>vbo = (0, 0), vao = 0, model = 0\<rparr>, program = 0,
            locProjection = 0, locModelView = 0, locTime = 0, locCameraPos = 0,
            projection = 0, view = 0\<rparr>"

definition drv_ok :: "real driver" where
  "drv_ok = \<lparr>debug_build = False,
             round_double = Finite,
             round_float = round_literals,
             fopen = (\<lambda>tr f. Some ''void main(){}''),
             malloc_ok = (\<lambda>tr n. True),
             glCreateShader = (\<lambda>tr ty. case ty of GL_VERTEX_SHADER \<Rightarrow> 1 | GL_FRAGMENT_SHADER \<Rightarrow> 2),
             compile_status = (\<lambda>tr sh. True),
             glGetShaderInfoLog = (\<lambda>tr sh. []),
             glCreateProgram = (\<lambda>tr. 3),
             link_status = (\<lambda>tr p. True),
             glGetProgramInfoLog = (\<lambda>tr p. []),
             glGetUniformLocation = (\<lambda>tr p name.
               if name = ''projection'' then 0 else if name = ''modelView'' then 1
               else if name = ''time'' then 2 else - 1),
             glGetString = (\<lambda>tr n. ''gl''),
             glGetNumExtensions = (\<lambda>tr. 0),
             glGetStringi = (\<lambda>tr i. None),
             gl_errors = (\<lambda>tr. []),
             glGenVertexArray = (\<lambda>tr. 1),
             glGenBufferPair = (\<lambda>tr. (1, 2)),
             glfwInit = (\<lambda>tr. True),
             glfwCreateWindow = (\<lambda>tr w h title. 1),
             gladLoadGL = (\<lambda>tr. True)\<rparr>"

definition drv_fail :: "real driver" where
  "drv_fail = drv_ok\<lparr>fopen := (\<lambda>tr f. None), link_status := (\<lambda>tr p. False)\<rparr>"

text \<open>The state after a successful \<^verbatim>\<open>initBaseApp\<close>, and with program 7 bound.\<close>

definition s_init :: "real state" where
  "s_init = snd (initBaseApp drv_ok glm0 0 800 600 APP_TITLE (app0, wd0))"

definition s_bound :: "real state" where
  "s_bound = ((fst s_init)\<lparr>program := 7\<rparr>, wd0)"

text \<open>The local variables of \<^verbatim>\<open>mainLoop\<close> at its start, with the clock at 0.\<close>

definition lv0 :: loop_vars where
  "lv0 = \<lparr>frame = 0, frames_total = 0, start_time = 0, last_time = 0\<rparr>"

subsection \<open>Runs of the loop\<close>

text \<open>The state after the body of the loop has run once for each input.\<close>

definition passes ::
  "'m driver \<Rightarrow> 'm glm \<Rightarrow> (real \<times> event list) list \<Rightarrow>
   'm BaseApplication \<times> loop_vars \<times> 'm world \<Rightarrow> 'm BaseApplication \<times> loop_vars \<times> 'm world" where
  "passes drv g inps s = foldl (\<lambda>s' inp. loop_body drv g inp s') s inps"

text \<open>
  The differences between successive clock readings, starting from the time \<open>t\<close>, as
  real numbers; and the angles that the passes with these readings hand to
  \<^verbatim>\<open>glm::rotate\<close>: each is the product of \<^verbatim>\<open>half_pi\<close> and the stored delta,
  converted to a float.
\<close>

fun deltas :: "real \<Rightarrow> real list \<Rightarrow> real list" where
  "deltas t [] = []"
| "deltas t (now # ts) = (now - t) # deltas now ts"

fun angles :: "'m driver \<Rightarrow> 'm glm \<Rightarrow> real \<Rightarrow> real list \<Rightarrow> fp list" where
  "angles drv g t [] = []"
| "angles drv g t (now # ts) =
     fp_cast (round_float drv)
       (fp_mul (round_double drv) (Finite (half_pi_double g)) (round_double drv (now - t)))
     # angles drv g now ts"

section \<open>What each function adds to the trace\<close>

lemma renders_emit: "renders (emit c wd) = renders wd @ (if gl_render c then [c] else [])"
  by (simp add: renders_def emit_def)

lemma renders_shouldClose [simp]: "renders (wd\<lparr>shouldClose := b\<rparr>) = renders wd"
  by (simp add: renders_def)

lemma renders_info [simp]: "renders (info f a wd) = renders wd"
  by (simp add: info_def renders_emit gl_render_def)

lemma renders_warn [simp]: "renders (warn f a wd) = renders wd"
  by (simp add: warn_def renders_emit gl_render_def)

lemma renders_getGLError_turn [simp]:
  "renders (snd (getGLError_turn action ign file line s e)) = renders (snd s)"
  by (simp add: getGLError_turn_def split_def Let_def renders_emit gl_render_def
      split: option.splits)

lemma renders_getGLError [simp]: "renders (snd (getGLError drv action ign file line wd)) = renders wd"
proof -
  have "renders (snd (foldl (getGLError_turn action ign file line) acc es)) = renders (snd acc)"
    for es and acc :: "GLuint \<times> 'a world"
    by (induction es arbitrary: acc) simp_all
  then show ?thesis by (simp add: getGLError_def)
qed

lemma renders_GL_ERROR_DBG [simp]: "renders (GL_ERROR_DBG drv action file line wd) = renders wd"
  by (simp add: GL_ERROR_DBG_def)

lemma renders_printInfoLog [simp]: "renders (printInfoLog drv obj p wd) = renders wd"
  by (simp add: printInfoLog_def renders_emit gl_render_def)

lemma renders_shaderCreateAndCompile [simp]:
  "renders (snd (shaderCreateAndCompile drv ty src wd)) = renders wd"
  by (simp add: shaderCreateAndCompile_def Let_def renders_emit gl_render_def)

lemma renders_shaderCreateFromFileAndCompile [simp]:
  "renders (snd (shaderCreateFromFileAndCompile drv ty file wd)) = renders wd"
  by (simp add: shaderCreateFromFileAndCompile_def Let_def split: option.splits)

lemma renders_programCreate [simp]:
  "renders (snd (programCreate drv v f wd)) = renders wd"
  by (simp add: programCreate_def Let_def renders_emit gl_render_def)

lemma renders_programCreateFromFiles [simp]:
  "renders (snd (programCreateFromFiles drv vs fs wd)) = renders wd"
  by (simp add: programCreateFromFiles_def Let_def split_def renders_emit gl_render_def)

lemma renders_destroyShaders [simp]: "renders (snd (destroyShaders s)) = renders (snd s)"
  by (simp add: destroyShaders_def split_def renders_emit gl_render_def)

lemma renders_initShaders [simp]:
  "renders (snd (snd (initShaders drv vs fs s))) = renders (snd s)"
  by (simp add: initShaders_def Let_def split_def)

lemma renders_handle_key [simp]: "renders (snd (handle_key drv key s)) = renders (snd s)"
  by (simp add: handle_key_def split_def renders_emit gl_render_def)

lemma renders_callback_Keyboard [simp]:
  "renders (snd (callback_Keyboard drv key sc a m s)) = renders (snd s)"
  by (simp add: callback_Keyboard_def Let_def split_def)

lemma renders_callback_Resize [simp]: "renders (snd (callback_Resize w h s)) = renders (snd s)"
  by (simp add: callback_Resize_def split_def)

lemma renders_dispatch [simp]: "renders (snd (dispatch drv s e)) = renders (snd s)"
  by (cases e) (simp_all add: dispatch_def)

lemma renders_foldl_dispatch [simp]: "renders (snd (foldl (dispatch drv) s evs)) = renders (snd s)"
  by (induction evs arbitrary: s) simp_all

lemma renders_glfwPollEvents [simp]: "renders (snd (glfwPollEvents drv evs s)) = renders (snd s)"
  by (simp add: glfwPollEvents_def renders_emit gl_render_def)

lemma renders_update_fps [simp]: "renders (snd (snd (update_fps drv s))) = renders (snd (snd s))"
  by (simp add: update_fps_def Let_def split_def renders_emit gl_render_def)

lemma renders_displayFunc:
  "renders (snd (displayFunc drv g s)) = renders (snd s) @
     [GlUseProgram (program (fst s)),
      GlUniformMatrix4fv (locProjection (fst s))
        (perspective g (Finite (half_pi_float g))
           (fp_div (round_float drv) (round_float drv (real_of_int (width (fst s))))
              (round_float drv (real_of_int (height (fst s)))))
           (round_float drv (1/10)) (Finite 10)),
      GlUniformMatrix4fv (locModelView (fst s))
        (mat4_mult g (translate g (0, 0, - 4))
           (rotate g (model (cube (fst s)))
              (fp_cast (round_float drv)
                 (fp_mul (round_double drv) (Finite (half_pi_double g))
                    (timeDelta (fst s))))
              (round_float drv (8/10), round_float drv (6/10), round_float drv (1/10)))),
      GlUniform1f (locTime (fst s)) (round_float drv (timeCur (fst s))),
      GlDrawElementsTriangles 36 0,
      GlUseProgram 0,
      GlfwSwapBuffers (win (fst s))]"
  by (simp add: displayFunc_def Let_def split_def renders_emit gl_render_def)

lemma filter_is_draw_renders: "filter is_draw (renders wd) = filter is_draw (trace wd)"
proof -
  have "is_draw c \<Longrightarrow> gl_render c" for c :: "'a call"
    by (cases c) (simp_all add: is_draw_def gl_render_def)
  then have "(\<lambda>c. gl_render c \<and> is_draw c) = (is_draw :: 'a call \<Rightarrow> bool)"
    by auto
  then show ?thesis
    by (simp add: renders_def)
qed

lemma filter_is_uniform_renders: "filter is_uniform (renders wd) = filter is_uniform (trace wd)"
proof -
  have "is_uniform c \<Longrightarrow> gl_render c" for c :: "'a call"
    by (cases c) (simp_all add: is_uniform_def gl_render_def)
  then have "(\<lambda>c. gl_render c \<and> is_uniform c) = (is_uniform :: 'a call \<Rightarrow> bool)"
    by auto
  then show ?thesis
    by (simp add: renders_def)
qed

section \<open>What input events leave unchanged\<close>

lemma input_frame_refl [simp]: "input_frame app app"
  by (simp add: input_frame_def)

lemma input_frame_trans: "input_frame a b \<Longrightarrow> input_frame b c \<Longrightarrow> input_frame a c"
  by (simp add: input_frame_def)

lemma input_frame_destroyShaders: "input_frame (fst s) (fst (destroyShaders s))"
  by (simp add: destroyShaders_def split_def input_frame_def)

lemma input_frame_initShaders: "input_frame (fst s) (fst (snd (initShaders drv vs fs s)))"
  by (simp add: initShaders_def destroyShaders_def Let_def split_def input_frame_def)

lemma input_frame_handle_key: "input_frame (fst s) (fst (handle_key drv key s))"
  by (simp add: handle_key_def split_def input_frame_initShaders)

lemma input_frame_update:
  "input_frame a b \<Longrightarrow> input_frame a (b\<lparr>pressedKeys := pk\<rparr>)"
  "input_frame a b \<Longrightarrow> input_frame a (b\<lparr>width := w, height := h\<rparr>)"
  by (simp_all add: input_frame_def)

lemma input_frame_callback_Keyboard:
  "input_frame (fst s) (fst (callback_Keyboard drv key sc a m s))"
  by (simp add: callback_Keyboard_def Let_def split_def input_frame_update input_frame_handle_key)

lemma input_frame_callback_Resize: "input_frame (fst s) (fst (callback_Resize w h s))"
  by (simp add: callback_Resize_def split_def input_frame_update)

lemma input_frame_dispatch: "input_frame (fst s) (fst (dispatch drv s e))"
  by (cases e)
     (simp_all add: dispatch_def input_frame_callback_Keyboard input_frame_callback_Resize)

lemma input_frame_foldl_dispatch: "input_frame (fst s) (fst (foldl (dispatch drv) s evs))"
proof (induction evs arbitrary: s)
  case Nil
  show ?case by simp
next
  case (Cons e evs)
  have "input_frame (fst s) (fst (dispatch drv s e))"
    by (rule input_frame_dispatch)
  moreover have "input_frame (fst (dispatch drv s e)) (fst (foldl (dispatch drv) (dispatch drv s e) evs))"
    by (rule Cons.IH)
  ultimately show ?case
    by (simp add: input_frame_trans)
qed

lemma input_frame_glfwPollEvents: "input_frame (fst s) (fst (glfwPollEvents drv evs s))"
  using input_frame_foldl_dispatch [of "(fst s, emit GlfwPollEvents (snd s))" drv evs]
  by (simp add: glfwPollEvents_def)

lemma input_frame_fields:
  assumes "input_frame app app'"
  shows "win app' = win app" "flags app' = flags app" "timeCur app' = timeCur app"
    "timeDelta app' = timeDelta app" "avg_frametime app' = avg_frametime app"
    "avg_fps app' = avg_fps app" "releasedKeys app' = releasedKeys app" "cube app' = cube app"
    "projection app' = projection app" "view app' = view app"
  using assms by (simp_all add: input_frame_def)

section \<open>Keyboard handling\<close>

lemma pressedKeys_destroyShaders [simp]:
  "pressedKeys (fst (destroyShaders s)) = pressedKeys (fst s)"
  by (simp add: destroyShaders_def split_def)

lemma pressedKeys_initShaders [simp]:
  "pressedKeys (fst (snd (initShaders drv vs fs s))) = pressedKeys (fst s)"
  by (simp add: initShaders_def Let_def split_def)

lemma pressedKeys_handle_key [simp]:
  "pressedKeys (fst (handle_key drv key s)) = pressedKeys (fst s)"
  by (simp add: handle_key_def split_def)

lemma callback_Keyboard_edge:
  assumes "0 \<le> key" "key \<le> GLFW_KEY_LAST" "action \<noteq> GLFW_RELEASE"
    and "\<not> pressedKeys (fst s) ! nat key"
  shows "callback_Keyboard drv key sc action m s = mark_pressed key (handle_key drv key s)"
  using assms by (simp add: callback_Keyboard_def mark_pressed_def split_def Let_def)

lemma callback_Keyboard_held:
  assumes "0 \<le> key" "key \<le> GLFW_KEY_LAST" "action \<noteq> GLFW_RELEASE"
    and "pressedKeys (fst s) ! nat key"
    and "length (pressedKeys (fst s)) = nat (GLFW_KEY_LAST + 1)"
  shows "callback_Keyboard drv key sc action m s = s"
proof -
  have "(pressedKeys (fst s))[nat key := True] = pressedKeys (fst s)"
    using assms(4) by (metis list_update_id)
  then show ?thesis
    using assms by (simp add: callback_Keyboard_def split_def)
qed

lemma length_pressedKeys_callback [simp]:
  "length (pressedKeys (fst (callback_Keyboard drv k sc a m s))) = length (pressedKeys (fst s))"
  by (simp add: callback_Keyboard_def split_def Let_def)

lemma length_pressedKeys_dispatch [simp]:
  "length (pressedKeys (fst (dispatch drv s e))) = length (pressedKeys (fst s))"
  by (cases e) (simp_all add: dispatch_def callback_Resize_def split_def)

lemma pressed_stays_callback:
  assumes "0 \<le> key" "pressedKeys (fst s) ! nat key"
    and "\<not> (k = key \<and> a = GLFW_RELEASE)"
    and "nat key < length (pressedKeys (fst s))"
  shows "pressedKeys (fst (callback_Keyboard drv k sc a m s)) ! nat key"
proof (cases "k = key")
  case True
  with assms show ?thesis
    by (simp add: callback_Keyboard_def split_def Let_def)
next
  case False
  show ?thesis
  proof (cases "k < 0 \<or> k > GLFW_KEY_LAST")
    case True
    with assms show ?thesis by (auto simp add: callback_Keyboard_def split_def Let_def)
  next
    case inr: False
    with False assms(1) have "nat k \<noteq> nat key" by (simp add: eq_nat_nat_iff)
    with assms inr show ?thesis
      by (simp add: callback_Keyboard_def split_def Let_def)
  qed
qed

lemma pressed_stays_dispatch:
  assumes "0 \<le> key" "pressedKeys (fst s) ! nat key" "\<not> is_release_of key e"
    and "nat key < length (pressedKeys (fst s))"
  shows "pressedKeys (fst (dispatch drv s e)) ! nat key"
proof (cases e)
  case (KeyEvent k sc a m)
  with assms show ?thesis
    by (simp add: dispatch_def is_release_of_def pressed_stays_callback)
next
  case (ResizeEvent w h)
  with assms show ?thesis by (simp add: dispatch_def callback_Resize_def split_def)
next
  case CloseRequest
  with assms show ?thesis by (simp add: dispatch_def)
qed

lemma held_stays:
  assumes "0 \<le> key" "key \<le> GLFW_KEY_LAST"
    and "length (pressedKeys (fst s)) = nat (GLFW_KEY_LAST + 1)"
    and "pressedKeys (fst s) ! nat key"
    and "\<forall>e \<in> set evs. \<not> is_release_of key e"
  shows "pressedKeys (fst (foldl (dispatch drv) s evs)) ! nat key"
  using assms(3-5)
proof (induction evs arbitrary: s)
  case Nil
  then show ?case by simp
next
  case (Cons e evs)
  have lt: "nat key < length (pressedKeys (fst s))"
    using assms(1,2) Cons.prems(1) by simp
  have nr: "\<not> is_release_of key e" using Cons.prems(3) by simp
  have st: "pressedKeys (fst (dispatch drv s e)) ! nat key"
    using pressed_stays_dispatch [OF assms(1) Cons.prems(2) nr lt] .
  have ln: "length (pressedKeys (fst (dispatch drv s e))) = nat (GLFW_KEY_LAST + 1)"
    using Cons.prems(1) by simp
  have rest: "\<forall>e \<in> set evs. \<not> is_release_of key e" using Cons.prems(3) by simp
  show ?case using Cons.IH [OF ln st rest] by simp
qed

lemma length_pressedKeys_foldl_dispatch [simp]:
  "length (pressedKeys (fst (foldl (dispatch drv) s evs))) = length (pressedKeys (fst s))"
  by (induction evs arbitrary: s) simp_all

lemma held_events_skipped:
  assumes "0 \<le> key" "key \<le> GLFW_KEY_LAST"
    and "length (pressedKeys (fst s)) = nat (GLFW_KEY_LAST + 1)"
    and "pressedKeys (fst s) ! nat key"
    and "\<forall>e \<in> set evs. \<not> is_release_of key e"
  shows "foldl (dispatch drv) s evs = foldl (dispatch drv) s (filter (\<lambda>e. \<not> is_key_event key e) evs)"
  using assms(3-5)
proof (induction evs arbitrary: s)
  case Nil
  then show ?case by simp
next
  case (Cons e evs)
  have lt: "nat key < length (pressedKeys (fst s))"
    using assms(1,2) Cons.prems(1) by simp
  have nr: "\<not> is_release_of key e" using Cons.prems(3) by simp
  have rest: "\<forall>e \<in> set evs. \<not> is_release_of key e" using Cons.prems(3) by simp
  show ?case
  proof (cases "is_key_event key e")
    case True
    then obtain sc a m where e: "e = KeyEvent key sc a m"
      by (cases e) (simp_all add: is_key_event_def)
    with nr have "a \<noteq> GLFW_RELEASE" by (simp add: is_release_of_def)
    then have "dispatch drv s e = s"
      using e callback_Keyboard_held [OF assms(1,2) _ Cons.prems(2) Cons.prems(1)]
      by (simp add: dispatch_def)
    with Cons.IH [OF Cons.prems(1,2) rest] True show ?thesis by simp
  next
    case False
    have st: "pressedKeys (fst (dispatch drv s e)) ! nat key"
      using pressed_stays_dispatch [OF assms(1) Cons.prems(2) nr lt] .
    have ln: "length (pressedKeys (fst (dispatch drv s e))) = nat (GLFW_KEY_LAST + 1)"
      using Cons.prems(1) by simp
    from Cons.IH [OF ln st rest] False show ?thesis by simp
  qed
qed

text \<open>
  Claim C4. A key that goes down fires its action once. Let the key be in range and up,
  and let a press of it be followed by any events among which there is no release of
  that key (repeats of the key, events of other keys, resizes). Then the whole sequence
  has the effect of handling the key once, recording it as down, and processing the
  other events: every later press or repeat of the held key changes nothing. The key
  is down at the end, and up again once its release is processed, so that only then
  can its action fire again.
\<close>

theorem key_action_once_per_press:
  assumes "0 \<le> key" and "key \<le> GLFW_KEY_LAST"
    and "length (pressedKeys app) = nat (GLFW_KEY_LAST + 1)"
    and "\<not> pressedKeys app ! nat key"
    and "action \<noteq> GLFW_RELEASE"
    and "\<forall>e \<in> set evs. \<not> is_release_of key e"
  shows "foldl (dispatch drv) (app, wd) (KeyEvent key sc action m # evs) =
           foldl (dispatch drv) (mark_pressed key (handle_key drv key (app, wd)))
             (filter (\<lambda>e. \<not> is_key_event key e) evs)
         \<and> pressedKeys (fst (foldl (dispatch drv) (app, wd) (KeyEvent key sc action m # evs))) ! nat key
         \<and> \<not> pressedKeys (fst (dispatch drv
                (foldl (dispatch drv) (app, wd) (KeyEvent key sc action m # evs))
                (KeyEvent key sc' GLFW_RELEASE m'))) ! nat key"
proof -
  let ?s1 = "mark_pressed key (handle_key drv key (app, wd))"
  have first: "dispatch drv (app, wd) (KeyEvent key sc action m) = ?s1"
    using assms(1,2,4,5) by (simp add: dispatch_def callback_Keyboard_edge)
  have len1: "length (pressedKeys (fst ?s1)) = nat (GLFW_KEY_LAST + 1)"
    using assms(3) by (simp add: mark_pressed_def)
  have down1: "pressedKeys (fst ?s1) ! nat key"
    using assms(1,2,3) by (simp add: mark_pressed_def)
  note H = held_events_skipped [OF assms(1,2) len1 down1 assms(6), of drv]
  note D = held_stays [OF assms(1,2) len1 down1 assms(6), of drv]
  let ?s2 = "foldl (dispatch drv) ?s1 evs"
  have len2: "nat key < length (pressedKeys (fst ?s2))"
    using len1 assms(1,2) by simp
  have up: "\<not> pressedKeys (fst (dispatch drv ?s2 (KeyEvent key sc' GLFW_RELEASE m'))) ! nat key"
    using assms(1,2) len2 by (simp add: dispatch_def callback_Keyboard_def split_def Let_def)
  show ?thesis
    unfolding foldl_Cons first using H D up by (intro conjI)
qed

lemma pressedKeys_initBaseApp:
  "pressedKeys (fst (snd (initBaseApp drv g t w h title s0))) = replicate (nat (GLFW_KEY_LAST + 1)) False"
  by (simp add: initBaseApp_def Let_def split_def)

theorem key_action_once_per_press_witness:
  "foldl (dispatch drv_fail) s_init
     (KeyEvent 49 0 GLFW_PRESS 0 #
      [KeyEvent 49 0 GLFW_REPEAT 0, KeyEvent 50 0 GLFW_RELEASE 0, KeyEvent 49 0 GLFW_REPEAT 0]) =
   foldl (dispatch drv_fail) (mark_pressed 49 (handle_key drv_fail 49 s_init))
     [KeyEvent 50 0 GLFW_RELEASE 0]
   \<and> pressedKeys (fst (foldl (dispatch drv_fail) s_init
        (KeyEvent 49 0 GLFW_PRESS 0 #
         [KeyEvent 49 0 GLFW_REPEAT 0, KeyEvent 50 0 GLFW_RELEASE 0,
          KeyEvent 49 0 GLFW_REPEAT 0]))) ! nat 49"
proof -
  have len: "length (pressedKeys (fst s_init)) = nat (GLFW_KEY_LAST + 1)"
    by (simp add: s_init_def pressedKeys_initBaseApp)
  have up: "\<not> pressedKeys (fst s_init) ! nat 49"
    by (simp add: s_init_def pressedKeys_initBaseApp GLFW_KEY_LAST_def)
  have held: "\<forall>e \<in> set [KeyEvent 49 0 GLFW_REPEAT 0, KeyEvent 50 0 GLFW_RELEASE 0,
      KeyEvent 49 0 GLFW_REPEAT 0]. \<not> is_release_of 49 e"
    by (simp add: is_release_of_def GLFW_REPEAT_def GLFW_RELEASE_def)
  have press: "GLFW_PRESS \<noteq> GLFW_RELEASE"
    by (simp add: GLFW_PRESS_def GLFW_RELEASE_def)
  have r: "(0::int) \<le> 49" "49 \<le> GLFW_KEY_LAST"
    by (simp_all add: GLFW_KEY_LAST_def)
  have f: "filter (\<lambda>e. \<not> is_key_event 49 e)
             [KeyEvent 49 0 GLFW_REPEAT 0, KeyEvent 50 0 GLFW_RELEASE 0, KeyEvent 49 0 GLFW_REPEAT 0]
           = [KeyEvent 50 0 GLFW_RELEASE 0]"
    by (simp add: is_key_event_def)
  from key_action_once_per_press [OF r len up press held, of drv_fail "snd s_init" 0 0 0 0]
  show ?thesis
    unfolding f prod.collapse by blast
qed

lemma releasedKeys_initBaseApp:
  "releasedKeys (fst (snd (initBaseApp drv g t w h title s0))) = replicate (nat (GLFW_KEY_LAST + 1)) False"
  by (simp add: initBaseApp_def Let_def split_def)

lemma releasedKeys_displayFunc [simp]:
  "releasedKeys (fst (displayFunc drv g s)) = releasedKeys (fst s)"
  by (simp add: displayFunc_def Let_def split_def)

lemma releasedKeys_update_fps [simp]:
  "releasedKeys (fst (update_fps drv s)) = releasedKeys (fst s)"
  by (simp add: update_fps_def Let_def split_def)

lemma releasedKeys_loop_body [simp]:
  "releasedKeys (fst (loop_body drv g inp s)) = releasedKeys (fst s)"
  by (simp add: loop_body_def Let_def split_def input_frame_fields [OF input_frame_glfwPollEvents])

lemma releasedKeys_destroy [simp]: "releasedKeys (fst (destroy s)) = releasedKeys (fst s)"
  by (simp add: destroy_def Let_def split_def input_frame_fields [OF input_frame_destroyShaders])

lemma initShaders_releasedKeys_indep:
  "initShaders drv vs fs (app\<lparr>releasedKeys := r\<rparr>, wd) =
     (fst (initShaders drv vs fs (app, wd)),
      (fst (snd (initShaders drv vs fs (app, wd))))\<lparr>releasedKeys := r\<rparr>,
      snd (snd (initShaders drv vs fs (app, wd))))"
  by (simp add: initShaders_def destroyShaders_def Let_def split_def)

lemma handle_key_releasedKeys_indep:
  "handle_key drv key (app\<lparr>releasedKeys := r\<rparr>, wd) =
     ((fst (handle_key drv key (app, wd)))\<lparr>releasedKeys := r\<rparr>, snd (handle_key drv key (app, wd)))"
  by (simp add: handle_key_def initShaders_releasedKeys_indep)

lemma callback_Keyboard_releasedKeys_indep:
  "callback_Keyboard drv key sc a m (app\<lparr>releasedKeys := r\<rparr>, wd) =
     ((fst (callback_Keyboard drv key sc a m (app, wd)))\<lparr>releasedKeys := r\<rparr>,
      snd (callback_Keyboard drv key sc a m (app, wd)))"
  by (simp add: callback_Keyboard_def Let_def split_def handle_key_releasedKeys_indep)

lemma while_loop_reachable:
  assumes "reachable drv g (app, wd)"
    and "while_loop drv g inps (app, lv, wd) = Some (app', lv', wd')"
  shows "reachable drv g (app', wd')"
  using assms
proof (induction inps arbitrary: app lv wd)
  case Nil
  then show ?case by (simp split: if_splits)
next
  case (Cons inp inps)
  show ?case
  proof (cases "shouldClose wd")
    case True
    with Cons.prems show ?thesis by simp
  next
    case False
    obtain app1 lv1 wd1 where b: "loop_body drv g inp (app, lv, wd) = (app1, lv1, wd1)"
      by (cases "loop_body drv g inp (app, lv, wd)")
    have r: "reachable drv g (app1, wd1)"
      using Cons.prems(1) b by (rule reachable.r_loop)
    have "while_loop drv g inps (app1, lv1, wd1) = Some (app', lv', wd')"
      using Cons.prems(2) False b by simp
    with r show ?thesis by (rule Cons.IH)
  qed
qed

lemma mainLoop_reachable:
  assumes "reachable drv g s" and "mainLoop drv g t0 inps s = Some s'"
  shows "reachable drv g s'"
proof -
  obtain app wd where s: "s = (app, wd)" by (cases s)
  let ?lv = "\<lparr>frame = 0, frames_total = 0, start_time = t0, last_time = t0\<rparr>"
  let ?w1 = "info ''entering main loop'' [] wd"
  from assms(2) obtain app1 lv1 wd2 where
    w: "while_loop drv g inps (app, ?lv, ?w1) = Some (app1, lv1, wd2)"
    and e: "fst s' = app1"
    unfolding s by (auto simp add: mainLoop_def Let_def split: option.splits)
  have "reachable drv g (app, ?w1)"
    using assms(1) unfolding s by (rule reachable.r_world)
  then have "reachable drv g (app1, wd2)"
    using w by (rule while_loop_reachable)
  then have "reachable drv g (app1, snd s')"
    by (rule reachable.r_world)
  then show ?thesis using e by (cases s') simp
qed

lemma main_reachable:
  assumes "main drv g t_init t0 inps s0 = Some s"
  shows "reachable drv g s"
proof -
  let ?i = "initBaseApp drv g t_init 800 600 APP_TITLE s0"
  have r1: "reachable drv g (snd ?i)"
    by (rule reachable.r_init)
  show ?thesis
  proof (cases "fst ?i")
    case False
    then have "s = destroy (snd ?i)"
      using assms by (auto simp add: main_def split_def Let_def)
    then show ?thesis using r1 by (simp add: reachable.r_destroy)
  next
    case True
    let ?j = "initShaders drv ''shaders/raymarch.vs.glsl'' ''shaders/raymarch.fs.glsl'' (snd ?i)"
    have r2: "reachable drv g (snd ?j)"
      using r1 by (rule reachable.r_shaders)
    show ?thesis
    proof (cases "fst ?j")
      case False
      have "reachable drv g (fst (snd ?j), snd (snd ?j))" using r2 by simp
      then have "reachable drv g
          (fst (snd ?j), warn ''something wrong with our shaders...'' [] (snd (snd ?j)))"
        by (rule reachable.r_world)
      then have "reachable drv g (destroy
          (fst (snd ?j), warn ''something wrong with our shaders...'' [] (snd (snd ?j))))"
        by (rule reachable.r_destroy)
      moreover have "s = destroy
          (fst (snd ?j), warn ''something wrong with our shaders...'' [] (snd (snd ?j)))"
        using assms True False by (auto simp add: main_def split_def Let_def)
      ultimately show ?thesis by simp
    next
      case ok: True
      from assms True ok obtain s3 where m: "mainLoop drv g t0 inps (snd ?j) = Some s3"
        and e: "s = destroy s3"
        by (auto simp add: main_def split_def Let_def split: option.splits)
      have "reachable drv g s3"
        using r2 m by (rule mainLoop_reachable)
      then show ?thesis unfolding e by (rule reachable.r_destroy)
    qed
  qed
qed

text \<open>
  Claim C10. \<^verbatim>\<open>releasedKeys\<close> is set to all-false by \<^verbatim>\<open>initBaseApp\<close> and
  written by nothing else: in every reachable state each of its entries is false, and
  the keyboard callback does the same whatever the array holds (its result commutes
  with any change of the array), so that edge detection reads \<^verbatim>\<open>pressedKeys\<close> only.
  The state in which \<^verbatim>\<open>main\<close> ends is one of the reachable states.
\<close>

theorem releasedKeys_never_set:
  assumes "reachable drv g s"
  shows "releasedKeys (fst s) = replicate (nat (GLFW_KEY_LAST + 1)) False
         \<and> (\<forall>k. 0 \<le> k \<and> k \<le> GLFW_KEY_LAST \<longrightarrow> \<not> releasedKeys (fst s) ! nat k)
         \<and> (\<forall>key sc a m r.
               callback_Keyboard drv key sc a m ((fst s)\<lparr>releasedKeys := r\<rparr>, snd s) =
                 ((fst (callback_Keyboard drv key sc a m s))\<lparr>releasedKeys := r\<rparr>,
                  snd (callback_Keyboard drv key sc a m s)))
         \<and> (main drv g t_init t0 inps s0 = Some s' \<longrightarrow> reachable drv g s')"
proof -
  have inv: "releasedKeys (fst s) = replicate (nat (GLFW_KEY_LAST + 1)) False"
    using assms
  proof (induction rule: reachable.induct)
    case (r_init t w h title s0)
    show ?case by (rule releasedKeys_initBaseApp)
  next
    case (r_shaders s vs fs)
    then show ?case by (simp add: input_frame_fields [OF input_frame_initShaders])
  next
    case (r_key s key sc a m)
    then show ?case by (simp add: input_frame_fields [OF input_frame_callback_Keyboard])
  next
    case (r_resize s w h)
    then show ?case by (simp add: input_frame_fields [OF input_frame_callback_Resize])
  next
    case (r_close s)
    then show ?case by simp
  next
    case (r_display s)
    then show ?case by simp
  next
    case (r_loop app wd inp lv app' lv' wd')
    have "releasedKeys (fst (loop_body drv g inp (app, lv, wd))) = releasedKeys app"
      by simp
    with r_loop show ?case by simp
  next
    case (r_destroy s)
    then show ?case by simp
  next
    case (r_world app wd wd')
    then show ?case by simp
  qed
  have nth: "\<forall>k. 0 \<le> k \<and> k \<le> GLFW_KEY_LAST \<longrightarrow> \<not> releasedKeys (fst s) ! nat k"
    by (simp add: inv)
  have indep: "\<forall>key sc a m r.
               callback_Keyboard drv key sc a m ((fst s)\<lparr>releasedKeys := r\<rparr>, snd s) =
                 ((fst (callback_Keyboard drv key sc a m s))\<lparr>releasedKeys := r\<rparr>,
                  snd (callback_Keyboard drv key sc a m s))"
    using callback_Keyboard_releasedKeys_indep [where app = "fst s" and wd = "snd s" and drv = drv] by simp
  have fin: "main drv g t_init t0 inps s0 = Some s' \<longrightarrow> reachable drv g s'"
    using main_reachable by blast
  from inv nth indep fin show ?thesis by (intro conjI)
qed

theorem releasedKeys_never_set_witness:
  "releasedKeys (fst (callback_Keyboard drv_ok 49 0 GLFW_PRESS 0 s_init)) = replicate 349 False"
proof -
  have "reachable drv_ok glm0 s_init"
    unfolding s_init_def by (rule reachable.r_init)
  then have "reachable drv_ok glm0 (callback_Keyboard drv_ok 49 0 GLFW_PRESS 0 s_init)"
    by (rule reachable.r_key)
  from releasedKeys_never_set [OF this] show ?thesis
    by (simp add: GLFW_KEY_LAST_def)
qed

text \<open>
  Claim C8. On a press edge (the key is in range, not recorded as down, and the action
  is not a release) a digit key calls \<^verbatim>\<open>initShaders\<close> with the pair of files at its
  index in the table of ten pairs, Escape sets the close flag of the window, and any
  other key changes nothing; in each case the key is then recorded as down.
\<close>

theorem key_press_actions:
  assumes "0 \<le> key" and "key \<le> GLFW_KEY_LAST"
    and "\<not> pressedKeys app ! nat key"
    and "action \<noteq> GLFW_RELEASE"
  shows "callback_Keyboard drv key sc action m (app, wd) =
          (if 48 \<le> key \<and> key \<le> 57
           then mark_pressed key
                  (snd (initShaders drv (fst (shaders ! nat (key - 48)))
                          (snd (shaders ! nat (key - 48))) (app, wd)))
           else if key = GLFW_KEY_ESCAPE
           then (app\<lparr>pressedKeys := (pressedKeys app)[nat key := True]\<rparr>,
                 wd\<lparr>trace := trace wd @ [GlfwSetWindowShouldClose (win app) 1],
                    shouldClose := True\<rparr>)
           else (app\<lparr>pressedKeys := (pressedKeys app)[nat key := True]\<rparr>, wd))
         \<and> length shaders = 10
         \<and> (48 \<le> key \<and> key \<le> 57 \<longrightarrow> nat (key - 48) < length shaders)"
proof -
  have "callback_Keyboard drv key sc action m (app, wd) = mark_pressed key (handle_key drv key (app, wd))"
    using assms by (simp add: callback_Keyboard_edge)
  moreover have "length shaders = 10" by (simp add: shaders_def)
  ultimately show ?thesis
    by (auto simp add: handle_key_def mark_pressed_def emit_def)
qed

theorem key_press_actions_witness:
  "callback_Keyboard drv_fail 49 0 GLFW_PRESS 0 s_init =
     mark_pressed 49 (snd (initShaders drv_fail ''shaders/color.vs.glsl'' ''shaders/color.fs.glsl'' s_init))
   \<and> callback_Keyboard drv_fail GLFW_KEY_ESCAPE 0 GLFW_PRESS 0 s_init =
       ((fst s_init)\<lparr>pressedKeys := (pressedKeys (fst s_init))[256 := True]\<rparr>,
        (snd s_init)\<lparr>trace := trace (snd s_init) @ [GlfwSetWindowShouldClose (win (fst s_init)) 1],
                      shouldClose := True\<rparr>)"
proof -
  have up: "\<not> pressedKeys (fst s_init) ! nat 49" "\<not> pressedKeys (fst s_init) ! nat GLFW_KEY_ESCAPE"
    by (simp_all add: s_init_def pressedKeys_initBaseApp GLFW_KEY_LAST_def GLFW_KEY_ESCAPE_def)
  have press: "GLFW_PRESS \<noteq> GLFW_RELEASE"
    by (simp add: GLFW_PRESS_def GLFW_RELEASE_def)
  have r: "(0::int) \<le> 49" "49 \<le> GLFW_KEY_LAST" "0 \<le> GLFW_KEY_ESCAPE" "GLFW_KEY_ESCAPE \<le> GLFW_KEY_LAST"
    by (simp_all add: GLFW_KEY_LAST_def GLFW_KEY_ESCAPE_def)
  from key_press_actions [OF r(1,2) up(1) press, of drv_fail 0 0 "snd s_init"]
       key_press_actions [OF r(3,4) up(2) press, of drv_fail 0 0 "snd s_init"]
  show ?thesis
    by (simp add: shaders_def GLFW_KEY_ESCAPE_def)
qed

section \<open>The frame\<close>

lemma update_fps_app:
  "fst (update_fps drv (app, lv, wd)) =
     (if fp_ge (round_double drv (timeCur app - last_time lv)) (Finite 1)
      then app\<lparr>avg_frametime :=
                  fp_div (round_double drv)
                    (fp_mul (round_double drv) (Finite 1000)
                       (round_double drv (timeCur app - last_time lv)))
                    (Finite (real (unat (frame lv)))),
                avg_fps :=
                  fp_div (round_double drv) (Finite (real (unat (frame lv))))
                    (round_double drv (timeCur app - last_time lv))\<rparr>
      else app)"
  by (simp add: update_fps_def Let_def)

lemma renders_loop_body:
  "renders (snd (snd (loop_body drv g (now, evs) (app, lv, wd)))) = renders wd @
     [GlUseProgram (program app),
      GlUniformMatrix4fv (locProjection app)
        (perspective g (Finite (half_pi_float g))
           (fp_div (round_float drv) (round_float drv (real_of_int (width app)))
              (round_float drv (real_of_int (height app))))
           (round_float drv (1/10)) (Finite 10)),
      GlUniformMatrix4fv (locModelView app)
        (mat4_mult g (translate g (0, 0, - 4))
           (rotate g (model (cube app))
              (fp_cast (round_float drv)
                 (fp_mul (round_double drv) (Finite (half_pi_double g))
                    (round_double drv (now - timeCur app))))
              (round_float drv (8/10), round_float drv (6/10), round_float drv (1/10)))),
      GlUniform1f (locTime app) (round_float drv now),
      GlDrawElementsTriangles 36 0,
      GlUseProgram 0,
      GlfwSwapBuffers (win app)]"
  by (simp add: loop_body_def Let_def split_def renders_displayFunc update_fps_app)

text \<open>
  Claim C2, as amended. Every pass through the loop issues the draw, whether a program
  is bound or not: \<^verbatim>\<open>displayFunc\<close> has no test of the program field. The rendering
  calls of a pass are \<^verbatim>\<open>glUseProgram\<close> with the program field (0 when none is
  bound), the three uniform writes, one \<^verbatim>\<open>glDrawElements\<close> of 36 indices,
  \<^verbatim>\<open>glUseProgram(0)\<close> and the buffer swap; the number of draw calls in the trace
  grows by one.
\<close>

theorem draw_issued_without_program:
  "renders (snd (snd (loop_body drv g (now, evs) (app, lv, wd)))) = renders wd @
     [GlUseProgram (program app),
      GlUniformMatrix4fv (locProjection app)
        (perspective g (Finite (half_pi_float g))
           (fp_div (round_float drv) (round_float drv (real_of_int (width app)))
              (round_float drv (real_of_int (height app))))
           (round_float drv (1/10)) (Finite 10)),
      GlUniformMatrix4fv (locModelView app)
        (mat4_mult g (translate g (0, 0, - 4))
           (rotate g (model (cube app))
              (fp_cast (round_float drv)
                 (fp_mul (round_double drv) (Finite (half_pi_double g))
                    (round_double drv (now - timeCur app))))
              (round_float drv (8/10), round_float drv (6/10), round_float drv (1/10)))),
      GlUniform1f (locTime app) (round_float drv now),
      GlDrawElementsTriangles 36 0,
      GlUseProgram 0,
      GlfwSwapBuffers (win app)]
   \<and> draws (snd (snd (loop_body drv g (now, evs) (app, lv, wd)))) = draws wd + 1"
proof -
  note R = renders_loop_body [of drv g now evs app lv wd]
  have "filter is_draw (trace (snd (snd (loop_body drv g (now, evs) (app, lv, wd))))) =
        filter is_draw (trace wd) @ [GlDrawElementsTriangles 36 0]"
    unfolding filter_is_draw_renders [symmetric] R
    by (simp add: is_draw_def)
  then have "draws (snd (snd (loop_body drv g (now, evs) (app, lv, wd)))) = draws wd + 1"
    by (simp add: draws_def)
  with R show ?thesis by simp
qed

subsection \<open>The state after a successful start\<close>

lemma program_initBaseApp: "program (fst (snd (initBaseApp drv g t w h title s0))) = 0"
  by (simp add: initBaseApp_def Let_def split_def)

lemma fst_s_init:
  "fst s_init = app0\<lparr>win := 1, width := 800, height := 600, flags := 1,
      avg_frametime := Finite (- 1), avg_fps := Finite (- 1),
      pressedKeys := replicate 349 False, releasedKeys := replicate 349 False,
      cube := \<lparr>vbo = (1, 2), vao = 1, model = 0\<rparr>, program := 0, timeCur := 0\<rparr>"
  by (simp add: s_init_def initBaseApp_def Cube_initBasic_def Let_def split_def drv_ok_def
      glm0_def app0_def GLFW_KEY_LAST_def)

lemma shouldClose_s_init: "shouldClose (snd s_init) = False"
  by (simp add: s_init_def initBaseApp_def Cube_initBasic_def Let_def split_def drv_ok_def
      glm0_def app0_def wd0_def initGLState_def printGLInfo_def listGLExtensions_def
      GL_ERROR_DBG_def info_def emit_def)

theorem draw_issued_without_program_witness:
  "renders (snd (snd (loop_body drv_ok glm0 (1, []) (fst s_init, lv0, snd s_init)))) =
     renders (snd s_init) @
       [GlUseProgram 0, GlUniformMatrix4fv 0 0, GlUniformMatrix4fv 0 (3/2), GlUniform1f 0 (Finite 1),
        GlDrawElementsTriangles 36 0, GlUseProgram 0, GlfwSwapBuffers 1]"
  using draw_issued_without_program [of drv_ok glm0 1 "[]" "fst s_init" lv0 "snd s_init"]
  by (simp add: fst_s_init glm0_def app0_def drv_ok_def round_literals_def)

text \<open>
  The claim as the specification states it (no draw when no program is bound) fails
  after a successful start, where the program field is 0: the pass draws.
\<close>

theorem draw_skipped_counterexample:
  "program (fst s_init) = 0
   \<and> draws (snd (snd (loop_body drv_ok glm0 (1, []) (fst s_init, lv0, snd s_init))))
       = draws (snd s_init) + 1
   \<and> GlDrawElementsTriangles 36 0
       \<in> set (trace (snd (snd (loop_body drv_ok glm0 (1, []) (fst s_init, lv0, snd s_init)))))"
proof -
  let ?w = "snd (snd (loop_body drv_ok glm0 (1, []) (fst s_init, lv0, snd s_init)))"
  have p: "program (fst s_init) = 0"
    by (simp add: s_init_def program_initBaseApp)
  have "GlDrawElementsTriangles 36 0 \<in> set (renders ?w)"
    by (simp add: renders_loop_body)
  then have m: "GlDrawElementsTriangles 36 0 \<in> set (trace ?w)"
    by (simp add: renders_def)
  have "filter is_draw (trace ?w) = filter is_draw (trace (snd s_init)) @ [GlDrawElementsTriangles 36 0]"
    unfolding filter_is_draw_renders [symmetric] renders_loop_body
    by (simp add: is_draw_def)
  then have d: "draws ?w = draws (snd s_init) + 1"
    by (simp add: draws_def)
  from p d m show ?thesis by simp
qed

section \<open>Building and swapping the shader program\<close>

lemma trace_emit: "trace (emit c wd) = trace wd @ [c]"
  by (simp add: emit_def)

lemma trace_destroyShaders:
  "trace (snd (destroyShaders (app, wd))) = trace wd @
     (if program app \<noteq> 0
      then [Stdout ''deleting program %u'' [U (program app)], GlDeleteProgram (program app)]
      else [])"
  by (simp add: destroyShaders_def info_def trace_emit)

lemma prefix_trace_emit: "prefix (trace wd) (trace (emit c wd))"
  by (simp add: trace_emit)

lemma prefix_trace_info: "prefix (trace wd) (trace (info f a wd))"
  by (simp add: info_def trace_emit)

lemma prefix_trace_warn: "prefix (trace wd) (trace (warn f a wd))"
  by (simp add: warn_def trace_emit)

lemma prefix_trace_printInfoLog: "prefix (trace wd) (trace (printInfoLog drv obj p wd))"
  by (simp add: printInfoLog_def trace_emit Let_def)

lemma prefix_trace_shaderCreateAndCompile:
  "prefix (trace wd) (trace (snd (shaderCreateAndCompile drv ty src wd)))"
  by (simp add: shaderCreateAndCompile_def printInfoLog_def Let_def trace_emit info_def warn_def)

lemma prefix_trace_shaderCreateFromFileAndCompile:
  "prefix (trace wd) (trace (snd (shaderCreateFromFileAndCompile drv ty file wd)))"
proof -
  let ?w1 = "info (''loading shader file '' @ [CHR 0x27] @ ''%s'' @ [CHR 0x27]) [S file] wd"
  have 1: "prefix (trace wd) (trace ?w1)"
    by (rule prefix_trace_info)
  have 2: "prefix (trace ?w1) (trace (snd (shaderCreateFromFileAndCompile drv ty file wd)))"
    by (simp add: shaderCreateFromFileAndCompile_def Let_def prefix_trace_warn
        prefix_trace_shaderCreateAndCompile split: option.splits)
  from 1 2 show ?thesis by (rule prefix_order.trans)
qed

lemma prefix_trace_programCreate:
  "prefix (trace wd) (trace (snd (programCreate drv v f wd)))"
  by (simp add: programCreate_def printInfoLog_def Let_def trace_emit info_def warn_def)

lemma prefix_trace_programCreateFromFiles:
  "prefix (trace wd) (trace (snd (programCreateFromFiles drv vs fs wd)))"
proof -
  let ?w1 = "snd (shaderCreateFromFileAndCompile drv GL_VERTEX_SHADER vs wd)"
  let ?w2 = "snd (shaderCreateFromFileAndCompile drv GL_FRAGMENT_SHADER fs ?w1)"
  let ?i1 = "fst (shaderCreateFromFileAndCompile drv GL_VERTEX_SHADER vs wd)"
  let ?i2 = "fst (shaderCreateFromFileAndCompile drv GL_FRAGMENT_SHADER fs ?w1)"
  let ?w3 = "snd (programCreate drv ?i1 ?i2 ?w2)"
  have "prefix (trace wd) (trace ?w1)"
    by (rule prefix_trace_shaderCreateFromFileAndCompile)
  also have "prefix \<dots> (trace ?w2)"
    by (rule prefix_trace_shaderCreateFromFileAndCompile)
  also have "prefix \<dots> (trace ?w3)"
    by (rule prefix_trace_programCreate)
  also have "prefix \<dots> (trace (snd (programCreateFromFiles drv vs fs wd)))"
    by (simp add: programCreateFromFiles_def split_def Let_def trace_emit info_def)
  finally show ?thesis .
qed

lemma initShaders_failure:
  assumes "fst (programCreateFromFiles drv vs fs (snd (destroyShaders (app, wd)))) = 0"
  shows "initShaders drv vs fs (app, wd) =
           (False, app\<lparr>program := 0\<rparr>,
            snd (programCreateFromFiles drv vs fs (snd (destroyShaders (app, wd)))))"
  using assms by (simp add: initShaders_def destroyShaders_def split_def Let_def)

lemma initShaders_failure_order:
  assumes "fst (programCreateFromFiles drv vs fs (snd (destroyShaders (app, wd)))) = 0"
  shows "prefix (trace (snd (destroyShaders (app, wd))))
           (trace (snd (snd (initShaders drv vs fs (app, wd)))))"
    and "program app \<noteq> 0 \<Longrightarrow>
           trace (snd (snd (initShaders drv vs fs (app, wd)))) ! (length (trace wd) + 1)
             = GlDeleteProgram (program app)"
proof -
  let ?d = "trace (snd (destroyShaders (app, wd)))"
  let ?f = "trace (snd (snd (initShaders drv vs fs (app, wd))))"
  show p: "prefix ?d ?f"
    unfolding initShaders_failure [OF assms]
    using prefix_trace_programCreateFromFiles [of "snd (destroyShaders (app, wd))" drv vs fs]
    by simp
  assume n: "program app \<noteq> 0"
  from p obtain zs where z: "?f = ?d @ zs" by (auto simp add: prefix_def)
  have d: "?d = trace wd @
      [Stdout ''deleting program %u'' [U (program app)], GlDeleteProgram (program app)]"
    using n by (simp add: trace_destroyShaders)
  show "?f ! (length (trace wd) + 1) = GlDeleteProgram (program app)"
    unfolding z d by (simp add: nth_append)
qed

lemma programCreate_no_link:
  assumes "\<And>tr p. \<not> link_status drv tr p"
  shows "fst (programCreate drv v f wd) = 0"
  using assms by (simp add: programCreate_def Let_def)

lemma programCreateFromFiles_no_link:
  assumes "\<And>tr p. \<not> link_status drv tr p"
  shows "fst (programCreateFromFiles drv vs fs wd) = 0"
  using programCreate_no_link [OF assms] by (simp add: programCreateFromFiles_def split_def Let_def)

text \<open>
  Claim C1, as amended. \<^verbatim>\<open>initShaders\<close> deletes the bound program first and builds
  afterwards. When the build fails (\<^verbatim>\<open>programCreateFromFiles\<close> returns 0) the call
  returns false and leaves the application state as it was but for the program field,
  which is 0: no program is bound. The build is run in the world \<^verbatim>\<open>destroyShaders\<close>
  leaves, whose trace is the incoming one followed, if a program was bound, by the log
  line and the \<^verbatim>\<open>glDeleteProgram\<close> of that program; the build only appends to that
  trace. So the delete of the bound program stands right after the incoming trace, at
  the index given, and every call of the build comes after it.
\<close>

theorem failed_swap_unbinds_program:
  assumes "fst (programCreateFromFiles drv vs fs (snd (destroyShaders (app, wd)))) = 0"
  shows "fst (initShaders drv vs fs (app, wd)) = False
         \<and> fst (snd (initShaders drv vs fs (app, wd))) = app\<lparr>program := 0\<rparr>
         \<and> snd (snd (initShaders drv vs fs (app, wd))) =
             snd (programCreateFromFiles drv vs fs (snd (destroyShaders (app, wd))))
         \<and> trace (snd (destroyShaders (app, wd))) = trace wd @
             (if program app \<noteq> 0
              then [Stdout ''deleting program %u'' [U (program app)], GlDeleteProgram (program app)]
              else [])
         \<and> prefix (trace (snd (destroyShaders (app, wd))))
             (trace (snd (snd (initShaders drv vs fs (app, wd)))))
         \<and> (program app \<noteq> 0 \<longrightarrow>
              trace (snd (snd (initShaders drv vs fs (app, wd)))) ! (length (trace wd) + 1)
                = GlDeleteProgram (program app))"
  using initShaders_failure [OF assms] initShaders_failure_order [OF assms]
    trace_destroyShaders [of app wd]
  by simp

lemma drv_fail_no_link: "\<not> link_status drv_fail tr p"
  by (simp add: drv_fail_def)

lemma program_s_bound: "program (fst s_bound) = 7"
  by (simp add: s_bound_def)

lemma trace_s_bound: "trace (snd s_bound) = []"
  by (simp add: s_bound_def wd0_def)

lemma trace_failed_swap:
  "trace (snd (snd (initShaders drv_fail ''shaders/yourshader.vs.glsl''
      ''shaders/yourshader.fs.glsl'' s_bound))) =
     [Stdout ''deleting program %u'' [U 7],
      GlDeleteProgram 7,
      Stdout (''loading shader file '' @ [CHR 0x27] @ ''%s'' @ [CHR 0x27])
        [S ''shaders/yourshader.vs.glsl''],
      Stderr (''Failed to open shader file '' @ [CHR 0x27] @ ''%s'' @ [CHR 0x27])
        [S ''shaders/yourshader.vs.glsl''],
      Stdout (''loading shader file '' @ [CHR 0x27] @ ''%s'' @ [CHR 0x27])
        [S ''shaders/yourshader.fs.glsl''],
      Stderr (''Failed to open shader file '' @ [CHR 0x27] @ ''%s'' @ [CHR 0x27])
        [S ''shaders/yourshader.fs.glsl''],
      GlCreateProgram,
      Stdout ''created program %u'' [U 3],
      GlBindAttribLocation 3 0 ''pos'',
      GlBindAttribLocation 3 1 ''nrm'',
      GlBindAttribLocation 3 2 ''clr'',
      GlBindAttribLocation 3 3 ''tex'',
      GlBindFragDataLocation 3 0 ''color'',
      Stdout ''linking program %u'' [U 3],
      GlLinkProgram 3,
      Stderr ''Failed to link program!'' [],
      Stderr (''%s'' @ [CHR 0x0A]) [S []],
      GlDeleteProgram 3,
      Stdout ''destroying shader object %u'' [U 0],
      GlDeleteShader 0,
      Stdout ''destroying shader object %u'' [U 0],
      GlDeleteShader 0]"
  by (simp add: initShaders_def destroyShaders_def programCreateFromFiles_def programCreate_def
      shaderCreateFromFileAndCompile_def printInfoLog_def Let_def split_def info_def warn_def
      emit_def s_bound_def wd0_def drv_fail_def drv_ok_def)

theorem failed_swap_unbinds_program_witness:
  "fst (initShaders drv_fail ''shaders/yourshader.vs.glsl'' ''shaders/yourshader.fs.glsl'' s_bound) = False
   \<and> fst (snd (initShaders drv_fail ''shaders/yourshader.vs.glsl'' ''shaders/yourshader.fs.glsl'' s_bound))
       = (fst s_bound)\<lparr>program := 0\<rparr>
   \<and> trace (snd (destroyShaders s_bound)) =
       [Stdout ''deleting program %u'' [U 7], GlDeleteProgram 7]
   \<and> prefix [Stdout ''deleting program %u'' [U 7], GlDeleteProgram 7]
       (trace (snd (snd (initShaders drv_fail ''shaders/yourshader.vs.glsl''
          ''shaders/yourshader.fs.glsl'' s_bound))))
   \<and> trace (snd (snd (initShaders drv_fail ''shaders/yourshader.vs.glsl''
        ''shaders/yourshader.fs.glsl'' s_bound))) ! 1 = GlDeleteProgram 7"
proof -
  have b: "fst (programCreateFromFiles drv_fail ''shaders/yourshader.vs.glsl''
             ''shaders/yourshader.fs.glsl'' (snd (destroyShaders (fst s_bound, snd s_bound)))) = 0"
    by (rule programCreateFromFiles_no_link) (rule drv_fail_no_link)
  note T = failed_swap_unbinds_program [OF b, unfolded prod.collapse]
  have d: "trace (snd (destroyShaders s_bound)) =
      [Stdout ''deleting program %u'' [U 7], GlDeleteProgram 7]"
    using T [THEN conjunct2, THEN conjunct2, THEN conjunct2, THEN conjunct1]
    by (simp add: program_s_bound trace_s_bound)
  have e: "trace (snd (snd (initShaders drv_fail ''shaders/yourshader.vs.glsl''
        ''shaders/yourshader.fs.glsl'' s_bound))) ! 1 = GlDeleteProgram 7"
    using T [THEN conjunct2, THEN conjunct2, THEN conjunct2, THEN conjunct2, THEN conjunct2]
    by (simp add: program_s_bound trace_s_bound)
  from T [THEN conjunct1] T [THEN conjunct2, THEN conjunct1] d
    T [THEN conjunct2, THEN conjunct2, THEN conjunct2, THEN conjunct2, THEN conjunct1, unfolded d] e
  show ?thesis by (intro conjI)
qed

text \<open>
  The claim as the specification states it (the previous program stays bound when the
  build fails) fails with program 7 bound and a driver under which no file opens and
  nothing links: the call deletes program 7 before it loads the first file, and ends
  with no program bound.
\<close>

theorem failed_swap_keeps_program_counterexample:
  "program (fst s_bound) = 7
   \<and> fst (programCreateFromFiles drv_fail ''shaders/yourshader.vs.glsl''
            ''shaders/yourshader.fs.glsl'' (snd (destroyShaders s_bound))) = 0
   \<and> fst (initShaders drv_fail ''shaders/yourshader.vs.glsl''
            ''shaders/yourshader.fs.glsl'' s_bound) = False
   \<and> program (fst (snd (initShaders drv_fail ''shaders/yourshader.vs.glsl''
            ''shaders/yourshader.fs.glsl'' s_bound))) = 0
   \<and> take 3 (trace (snd (snd (initShaders drv_fail ''shaders/yourshader.vs.glsl''
        ''shaders/yourshader.fs.glsl'' s_bound)))) =
       [Stdout ''deleting program %u'' [U 7],
        GlDeleteProgram 7,
        Stdout (''loading shader file '' @ [CHR 0x27] @ ''%s'' @ [CHR 0x27])
          [S ''shaders/yourshader.vs.glsl'']]"
proof -
  have b: "fst (programCreateFromFiles drv_fail ''shaders/yourshader.vs.glsl''
             ''shaders/yourshader.fs.glsl'' (snd (destroyShaders (fst s_bound, snd s_bound)))) = 0"
    by (rule programCreateFromFiles_no_link) (rule drv_fail_no_link)
  note e = initShaders_failure [OF b, unfolded prod.collapse]
  have 1: "program (fst s_bound) = 7" by (rule program_s_bound)
  have 2: "fst (programCreateFromFiles drv_fail ''shaders/yourshader.vs.glsl''
            ''shaders/yourshader.fs.glsl'' (snd (destroyShaders s_bound))) = 0"
    using b by simp
  have 3: "fst (initShaders drv_fail ''shaders/yourshader.vs.glsl''
            ''shaders/yourshader.fs.glsl'' s_bound) = False"
    by (simp add: e)
  have 4: "program (fst (snd (initShaders drv_fail ''shaders/yourshader.vs.glsl''
            ''shaders/yourshader.fs.glsl'' s_bound))) = 0"
    by (simp add: e)
  have 5: "take 3 (trace (snd (snd (initShaders drv_fail ''shaders/yourshader.vs.glsl''
        ''shaders/yourshader.fs.glsl'' s_bound)))) =
       [Stdout ''deleting program %u'' [U 7],
        GlDeleteProgram 7,
        Stdout (''loading shader file '' @ [CHR 0x27] @ ''%s'' @ [CHR 0x27])
          [S ''shaders/yourshader.vs.glsl'']]"
    by (simp add: trace_failed_swap)
  from 1 2 3 4 5 show ?thesis by (intro conjI)
qed

lemma initShaders_success:
  assumes "fst (initShaders drv vs fs s)"
  shows \<open>locCameraPos (fst (snd (initShaders drv vs fs s))) =
           glGetUniformLocation drv
             (trace (snd (programCreateFromFiles drv vs fs (snd (destroyShaders s)))))
             (program (fst (snd (initShaders drv vs fs s)))) ''cameraPosition''
         \<and> last (trace (snd (snd (initShaders drv vs fs s)))) =
             Stdout ''program %u: location for "locCameraPos" uniform: %d''
               [U (program (fst (snd (initShaders drv vs fs s)))),
                D (locCameraPos (fst (snd (initShaders drv vs fs s))))]
         \<and> program (fst (snd (initShaders drv vs fs s))) \<noteq> 0\<close>
  using assms
  by (simp add: initShaders_def Let_def split_def info_def emit_def split: if_splits)

lemma shader_state_displayFunc:
  "program (fst (displayFunc drv g s)) = program (fst s)
   \<and> locProjection (fst (displayFunc drv g s)) = locProjection (fst s)
   \<and> locModelView (fst (displayFunc drv g s)) = locModelView (fst s)
   \<and> locTime (fst (displayFunc drv g s)) = locTime (fst s)
   \<and> locCameraPos (fst (displayFunc drv g s)) = locCameraPos (fst s)"
  by (simp add: displayFunc_def Let_def split_def)

lemma shader_state_loop_body_no_events:
  "program (fst (loop_body drv g (now, []) (app, lv, wd))) = program app
   \<and> locProjection (fst (loop_body drv g (now, []) (app, lv, wd))) = locProjection app
   \<and> locModelView (fst (loop_body drv g (now, []) (app, lv, wd))) = locModelView app
   \<and> locTime (fst (loop_body drv g (now, []) (app, lv, wd))) = locTime app
   \<and> locCameraPos (fst (loop_body drv g (now, []) (app, lv, wd))) = locCameraPos app"
  by (simp add: loop_body_def Let_def split_def glfwPollEvents_def shader_state_displayFunc
      update_fps_app)

lemma uniforms_loop_body:
  "filter is_uniform (trace (snd (snd (loop_body drv g (now, evs) (app, lv, wd))))) =
     filter is_uniform (trace wd) @
         [GlUniformMatrix4fv (locProjection app)
          (perspective g (Finite (half_pi_float g))
             (fp_div (round_float drv) (round_float drv (real_of_int (width app)))
                (round_float drv (real_of_int (height app))))
             (round_float drv (1/10)) (Finite 10)),
        GlUniformMatrix4fv (locModelView app)
          (mat4_mult g (translate g (0, 0, - 4))
             (rotate g (model (cube app))
                (fp_cast (round_float drv)
                   (fp_mul (round_double drv) (Finite (half_pi_double g))
                      (round_double drv (now - timeCur app))))
                (round_float drv (8/10), round_float drv (6/10), round_float drv (1/10)))),
        GlUniform1f (locTime app) (round_float drv now)]"
  unfolding filter_is_uniform_renders [symmetric] renders_loop_body
  by (simp add: is_uniform_def)

text \<open>
  Claim C9. After a successful \<^verbatim>\<open>initShaders\<close> the location of
  \<^verbatim>\<open>cameraPosition\<close> is the one the driver resolves for the new program, and the
  last line logged gives it. A pass through the loop writes three uniforms, at the
  locations of projection, modelView and time, whatever events the pass delivers; the
  location of \<^verbatim>\<open>cameraPosition\<close> is not read. \<^verbatim>\<open>displayFunc\<close>, and a pass
  that delivers no event, leave the program and the four locations as they were.
\<close>

theorem cameraPosition_resolved_never_written:
  \<open>(fst (initShaders drv vs fs s) \<longrightarrow>
      locCameraPos (fst (snd (initShaders drv vs fs s))) =
        glGetUniformLocation drv
          (trace (snd (programCreateFromFiles drv vs fs (snd (destroyShaders s)))))
          (program (fst (snd (initShaders drv vs fs s)))) ''cameraPosition''
      \<and> last (trace (snd (snd (initShaders drv vs fs s)))) =
          Stdout ''program %u: location for "locCameraPos" uniform: %d''
            [U (program (fst (snd (initShaders drv vs fs s)))),
             D (locCameraPos (fst (snd (initShaders drv vs fs s))))])
   \<and> filter is_uniform (trace (snd (snd (loop_body drv g (now, evs) (app, lv, wd))))) =
       filter is_uniform (trace wd) @
         [GlUniformMatrix4fv (locProjection app)
            (perspective g (Finite (half_pi_float g))
               (fp_div (round_float drv) (round_float drv (real_of_int (width app)))
                  (round_float drv (real_of_int (height app))))
               (round_float drv (1/10)) (Finite 10)),
          GlUniformMatrix4fv (locModelView app)
            (mat4_mult g (translate g (0, 0, - 4))
               (rotate g (model (cube app))
                  (fp_cast (round_float drv)
                     (fp_mul (round_double drv) (Finite (half_pi_double g))
                        (round_double drv (now - timeCur app))))
                  (round_float drv (8/10), round_float drv (6/10), round_float drv (1/10)))),
          GlUniform1f (locTime app) (round_float drv now)]
   \<and> program (fst (displayFunc drv g (app, wd))) = program app
   \<and> locProjection (fst (displayFunc drv g (app, wd))) = locProjection app
   \<and> locModelView (fst (displayFunc drv g (app, wd))) = locModelView app
   \<and> locTime (fst (displayFunc drv g (app, wd))) = locTime app
   \<and> locCameraPos (fst (displayFunc drv g (app, wd))) = locCameraPos app
   \<and> program (fst (loop_body drv g (now, []) (app, lv, wd))) = program app
   \<and> locProjection (fst (loop_body drv g (now, []) (app, lv, wd))) = locProjection app
   \<and> locModelView (fst (loop_body drv g (now, []) (app, lv, wd))) = locModelView app
   \<and> locTime (fst (loop_body drv g (now, []) (app, lv, wd))) = locTime app
   \<and> locCameraPos (fst (loop_body drv g (now, []) (app, lv, wd))) = locCameraPos app\<close>
  using initShaders_success [of drv vs fs s] uniforms_loop_body [of drv g now evs app lv wd]
    shader_state_displayFunc [of drv g "(app, wd)"]
    shader_state_loop_body_no_events [of drv g now app lv wd]
  by simp

lemma initShaders_drv_ok:
  "fst (initShaders drv_ok vs fs s)"
  by (simp add: initShaders_def programCreateFromFiles_def programCreate_def
      shaderCreateFromFileAndCompile_def shaderCreateAndCompile_def Let_def split_def drv_ok_def)

theorem cameraPosition_resolved_never_written_witness:
  \<open>fst (initShaders drv_ok ''shaders/raymarch.vs.glsl'' ''shaders/raymarch.fs.glsl'' s_init)
   \<and> locCameraPos (fst (snd (initShaders drv_ok ''shaders/raymarch.vs.glsl''
        ''shaders/raymarch.fs.glsl'' s_init))) = - 1
   \<and> last (trace (snd (snd (initShaders drv_ok ''shaders/raymarch.vs.glsl''
        ''shaders/raymarch.fs.glsl'' s_init)))) =
       Stdout ''program %u: location for "locCameraPos" uniform: %d'' [U 3, D (- 1)]
   \<and> filter is_uniform (trace (snd (snd (loop_body drv_ok glm0 (1, [KeyEvent 49 0 GLFW_PRESS 0])
        (fst s_init, lv0, wd0))))) =
       [GlUniformMatrix4fv 0 0, GlUniformMatrix4fv 0 (3/2), GlUniform1f 0 (Finite 1)]\<close>
proof -
  have ok: "fst (initShaders drv_ok ''shaders/raymarch.vs.glsl'' ''shaders/raymarch.fs.glsl'' s_init)"
    by (rule initShaders_drv_ok)
  have p: "program (fst (snd (initShaders drv_ok ''shaders/raymarch.vs.glsl''
        ''shaders/raymarch.fs.glsl'' s_init))) = 3"
    by (simp add: initShaders_def programCreateFromFiles_def programCreate_def
      shaderCreateFromFileAndCompile_def shaderCreateAndCompile_def Let_def split_def drv_ok_def)
  have l: "glGetUniformLocation drv_ok tr q ''cameraPosition'' = - 1" for tr q
    by (simp add: drv_ok_def)
  from cameraPosition_resolved_never_written [of drv_ok "''shaders/raymarch.vs.glsl''"
      "''shaders/raymarch.fs.glsl''" s_init glm0 1 "[KeyEvent 49 0 GLFW_PRESS 0]" "fst s_init" lv0 wd0]
    ok p l
  show ?thesis
    by (simp add: fst_s_init glm0_def app0_def wd0_def drv_ok_def round_literals_def)
qed

section \<open>Cleaning up\<close>

lemma destroy_once:
  "destroy (app, wd) =
     (if flags app \<noteq> 0
      then (app\<lparr>cube := (cube app)\<lparr>vao := 0, vbo := (0, 0)\<rparr>, program := 0\<rparr>,
            wd\<lparr>trace := trace wd @ [GlBindVertexArray 0]
               @ (if vao (cube app) \<noteq> 0
                  then [Stdout ''Cube: deleting VAO %u'' [U (vao (cube app))],
                        GlDeleteVertexArrays (vao (cube app))] else [])
               @ (if fst (vbo (cube app)) \<noteq> 0 \<or> snd (vbo (cube app)) \<noteq> 0
                  then [Stdout ''Cube: deleting VBOs %u %u''
                          [U (fst (vbo (cube app))), U (snd (vbo (cube app)))],
                        GlDeleteBuffers (fst (vbo (cube app))) (snd (vbo (cube app)))] else [])
               @ (if program app \<noteq> 0
                  then [Stdout ''deleting program %u'' [U (program app)],
                        GlDeleteProgram (program app)] else [])
               @ (if win app \<noteq> 0 then [GlfwDestroyWindow (win app)] else [])
               @ [GlfwTerminate]\<rparr>)
      else (app, wd))"
  by (cases "vbo (cube app)")
     (auto simp add: destroy_def Cube_destroy_def destroyShaders_def Let_def split_def
        info_def emit_def)

text \<open>
  Claim C3, where the code departs from it. A second \<^verbatim>\<open>destroy\<close> releases no
  vertex array, buffer or program again (their handles are zeroed by the first), but
  the window pointer is tested and never cleared: when it is not null the second
  \<^verbatim>\<open>destroy\<close> calls \<^verbatim>\<open>glfwDestroyWindow\<close> on it again, after binding vertex
  array 0 and before a second \<^verbatim>\<open>glfwTerminate\<close>.
\<close>

theorem second_destroy_releases_window_again:
  "trace (snd (destroy (destroy (app, wd)))) =
     trace (snd (destroy (app, wd))) @
       (if flags app \<noteq> 0
        then [GlBindVertexArray 0] @ (if win app \<noteq> 0 then [GlfwDestroyWindow (win app)] else [])
             @ [GlfwTerminate]
        else [])"
proof (cases "flags app = 0")
  case True
  then show ?thesis by (simp add: destroy_once)
next
  case False
  let ?app1 = "fst (destroy (app, wd))" and ?wd1 = "snd (destroy (app, wd))"
  have a: "flags ?app1 = flags app" "vao (cube ?app1) = 0" "vbo (cube ?app1) = (0, 0)"
    "program ?app1 = 0" "win ?app1 = win app"
    using False by (simp_all add: destroy_once)
  have "destroy (destroy (app, wd)) = destroy (?app1, ?wd1)" by simp
  also have "trace (snd \<dots>) = trace ?wd1 @ [GlBindVertexArray 0]
      @ (if win app \<noteq> 0 then [GlfwDestroyWindow (win app)] else []) @ [GlfwTerminate]"
    unfolding destroy_once using False a by simp
  finally show ?thesis using False by simp
qed

theorem second_destroy_releases_window_again_witness:
  "filter (\<lambda>c. c = GlfwDestroyWindow 1) (trace (snd (destroy (destroy s_init))))
     = [GlfwDestroyWindow 1, GlfwDestroyWindow 1]
   \<and> filter (\<lambda>c. c = GlfwDestroyWindow 1) (trace (snd s_init)) = []"
proof -
  have n: "filter (\<lambda>c. c = GlfwDestroyWindow 1) (trace (snd s_init)) = []"
    by (simp add: s_init_def initBaseApp_def Cube_initBasic_def Let_def split_def drv_ok_def
      glm0_def app0_def wd0_def initGLState_def printGLInfo_def listGLExtensions_def
      GL_ERROR_DBG_def info_def emit_def)
  have f: "flags (fst s_init) = 1" "win (fst s_init) = 1" "vao (cube (fst s_init)) = 1"
    "vbo (cube (fst s_init)) = (1, 2)" "program (fst s_init) = 0"
    by (simp_all add: fst_s_init)
  have o: "filter (\<lambda>c. c = GlfwDestroyWindow 1) (trace (snd (destroy (fst s_init, snd s_init))))
         = [GlfwDestroyWindow 1]"
    unfolding destroy_once using f n by simp
  from second_destroy_releases_window_again [of "fst s_init" "snd s_init"] o n f
  show ?thesis by simp
qed

section \<open>The main loop\<close>

lemma passes_Nil [simp]: "passes drv g [] s = s"
  by (simp add: passes_def)

lemma passes_Cons [simp]: "passes drv g (inp # inps) s = passes drv g inps (loop_body drv g inp s)"
  by (simp add: passes_def)

lemma passes_append [simp]:
  "passes drv g (xs @ ys) s = passes drv g ys (passes drv g xs s)"
  by (simp add: passes_def)

lemma timing_displayFunc:
  "timeCur (fst (displayFunc drv g s)) = timeCur (fst s)
   \<and> avg_frametime (fst (displayFunc drv g s)) = avg_frametime (fst s)
   \<and> avg_fps (fst (displayFunc drv g s)) = avg_fps (fst s)"
  by (simp add: displayFunc_def Let_def split_def)


lemma update_fps_lv:
  "fst (snd (update_fps drv (app, lv, wd))) =
     (if fp_ge (round_double drv (timeCur app - last_time lv)) (Finite 1)
      then lv\<lparr>last_time := timeCur app, frames_total := frames_total lv + frame lv, frame := 0\<rparr>
      else lv)"
  by (simp add: update_fps_def Let_def)

lemma loop_body_lv:
  "fst (snd (loop_body drv g (now, evs) (app, lv, wd))) =
     (if fp_ge (round_double drv (now - last_time lv)) (Finite 1)
      then lv\<lparr>last_time := now, frames_total := frames_total lv + frame lv, frame := 1\<rparr>
      else lv\<lparr>frame := frame lv + 1\<rparr>)"
  by (simp add: loop_body_def Let_def split_def update_fps_lv)

lemma loop_body_timing:
  "timeCur (fst (loop_body drv g (now, evs) (app, lv, wd))) = now
   \<and> timeDelta (fst (loop_body drv g (now, evs) (app, lv, wd))) = round_double drv (now - timeCur app)
   \<and> avg_frametime (fst (loop_body drv g (now, evs) (app, lv, wd))) =
       (if fp_ge (round_double drv (now - last_time lv)) (Finite 1)
        then fp_div (round_double drv)
               (fp_mul (round_double drv) (Finite 1000) (round_double drv (now - last_time lv)))
               (Finite (real (unat (frame lv))))
        else avg_frametime app)
   \<and> avg_fps (fst (loop_body drv g (now, evs) (app, lv, wd))) =
       (if fp_ge (round_double drv (now - last_time lv)) (Finite 1)
        then fp_div (round_double drv) (Finite (real (unat (frame lv))))
               (round_double drv (now - last_time lv))
        else avg_fps app)"
  by (simp add: loop_body_def Let_def split_def input_frame_fields [OF input_frame_glfwPollEvents]
      timing_displayFunc update_fps_app displayFunc_def)

lemma loop_body_sum:
  "frames_total (fst (snd (loop_body drv g inp s))) + frame (fst (snd (loop_body drv g inp s))) =
     frames_total (fst (snd s)) + frame (fst (snd s)) + 1
   \<and> start_time (fst (snd (loop_body drv g inp s))) = start_time (fst (snd s))"
proof -
  obtain now evs where i: "inp = (now, evs)" by (cases inp)
  obtain app lv wd where s: "s = (app, lv, wd)" by (cases s)
  show ?thesis unfolding i s loop_body_lv by simp
qed

lemma draws_loop_body:
  "draws (snd (snd (loop_body drv g inp s))) = draws (snd (snd s)) + 1"
proof -
  obtain now evs where i: "inp = (now, evs)" by (cases inp)
  obtain app lv wd where s: "s = (app, lv, wd)" by (cases s)
  have "filter is_draw (trace (snd (snd (loop_body drv g (now, evs) (app, lv, wd))))) =
        filter is_draw (trace wd) @ [GlDrawElementsTriangles 36 0]"
    unfolding filter_is_draw_renders [symmetric] renders_loop_body
    by (simp add: is_draw_def)
  then show ?thesis unfolding i s by (simp add: draws_def)
qed

lemma passes_sum:
  "frames_total (fst (snd (passes drv g inps s))) + frame (fst (snd (passes drv g inps s))) =
     frames_total (fst (snd s)) + frame (fst (snd s)) + of_nat (length inps)
   \<and> start_time (fst (snd (passes drv g inps s))) = start_time (fst (snd s))
   \<and> draws (snd (snd (passes drv g inps s))) = draws (snd (snd s)) + length inps"
proof (induction inps arbitrary: s)
  case Nil
  show ?case by simp
next
  case (Cons inp inps)
  show ?case
    using Cons.IH [of "loop_body drv g inp s"] loop_body_sum [of drv g inp s]
      draws_loop_body [of drv g inp s]
    by simp
qed

lemma while_loop_passes:
  assumes "while_loop drv g inps s = Some s'"
  shows "\<exists>k \<le> length inps. s' = passes drv g (take k inps) s"
  using assms
proof (induction inps arbitrary: s)
  case Nil
  then show ?case by (simp split: if_splits)
next
  case (Cons inp inps)
  show ?case
  proof (cases "shouldClose (snd (snd s))")
    case True
    with Cons.prems have "s' = s" by simp
    then have "s' = passes drv g (take 0 (inp # inps)) s" by simp
    then show ?thesis by blast
  next
    case False
    with Cons.prems have "while_loop drv g inps (loop_body drv g inp s) = Some s'" by simp
    from Cons.IH [OF this] obtain k where k: "k \<le> length inps"
      and e: "s' = passes drv g (take k inps) (loop_body drv g inp s)" by blast
    then have "s' = passes drv g (take (Suc k) (inp # inps)) s" by simp
    moreover have "Suc k \<le> length (inp # inps)" using k by simp
    ultimately show ?thesis by blast
  qed
qed

lemma while_loop_closed:
  assumes "while_loop drv g inps s = Some s'"
  shows "shouldClose (snd (snd s'))"
  using assms
  by (induction inps arbitrary: s) (simp_all split: if_splits)

lemma while_loop_sum:
  assumes "while_loop drv g inps s = Some s'"
  shows "frames_total (fst (snd s')) + frame (fst (snd s')) =
           frames_total (fst (snd s)) + frame (fst (snd s))
             + of_nat (draws (snd (snd s')) - draws (snd (snd s)))
         \<and> start_time (fst (snd s')) = start_time (fst (snd s))
         \<and> draws (snd (snd s)) \<le> draws (snd (snd s'))"
proof -
  from while_loop_passes [OF assms] obtain k where "s' = passes drv g (take k inps) s" by blast
  then show ?thesis using passes_sum [of drv g "take k inps" s] by simp
qed

lemma shouldClose_emit [simp]: "shouldClose (emit c wd) = shouldClose wd"
  by (simp add: emit_def)

lemma shouldClose_info [simp]: "shouldClose (info f a wd) = shouldClose wd"
  by (simp add: info_def)

lemma shouldClose_warn [simp]: "shouldClose (warn f a wd) = shouldClose wd"
  by (simp add: warn_def)

lemma shouldClose_getGLError_turn [simp]:
  "shouldClose (snd (getGLError_turn action ign file line s e)) = shouldClose (snd s)"
  by (simp add: getGLError_turn_def split_def Let_def split: option.splits)

lemma shouldClose_getGLError [simp]:
  "shouldClose (snd (getGLError drv action ign file line wd)) = shouldClose wd"
proof -
  have "shouldClose (snd (foldl (getGLError_turn action ign file line) acc es)) = shouldClose (snd acc)"
    for es and acc :: "GLuint \<times> 'a world"
    by (induction es arbitrary: acc) simp_all
  then show ?thesis by (simp add: getGLError_def)
qed

lemma shouldClose_GL_ERROR_DBG [simp]:
  "shouldClose (GL_ERROR_DBG drv action file line wd) = shouldClose wd"
  by (simp add: GL_ERROR_DBG_def)

lemma shouldClose_displayFunc [simp]:
  "shouldClose (snd (displayFunc drv g s)) = shouldClose (snd s)"
  by (simp add: displayFunc_def Let_def split_def)

lemma shouldClose_update_fps [simp]:
  "shouldClose (snd (snd (update_fps drv s))) = shouldClose (snd (snd s))"
  by (simp add: update_fps_def Let_def split_def)

lemma shouldClose_loop_body_no_events:
  "shouldClose (snd (snd (loop_body drv g (now, []) s))) = shouldClose (snd (snd s))"
  by (simp add: loop_body_def Let_def split_def glfwPollEvents_def)

lemma shouldClose_loop_body_close:
  "shouldClose (snd (snd (loop_body drv g (now, [CloseRequest]) s)))"
  by (simp add: loop_body_def Let_def split_def glfwPollEvents_def dispatch_def)

lemma while_loop_run:
  assumes "\<not> shouldClose (snd (snd s))"
  shows "while_loop drv g (replicate n (t, []) @ [(t, [CloseRequest])]) s =
           Some (passes drv g (replicate n (t, []) @ [(t, [CloseRequest])]) s)"
  using assms
proof (induction n arbitrary: s)
  case 0
  then show ?case by (simp add: shouldClose_loop_body_close)
next
  case (Suc n)
  have "\<not> shouldClose (snd (snd (loop_body drv g (t, []) s)))"
    using Suc.prems by (simp add: shouldClose_loop_body_no_events)
  from Suc.IH [OF this] Suc.prems show ?case by simp
qed

lemma draws_info [simp]: "draws (info f a wd) = draws wd"
  by (simp add: draws_def info_def emit_def is_draw_def)

lemma timeCur_loop_body:
  "timeCur (fst (loop_body drv g (now, evs) s)) = now"
proof -
  obtain app lv wd where s: "s = (app, lv, wd)" by (cases s)
  show ?thesis unfolding s using loop_body_timing [of drv g now evs app lv wd] by simp
qed

lemma timeCur_passes:
  "timeCur (fst (passes drv g inps s)) = last (timeCur (fst s) # map fst inps)"
proof (induction inps arbitrary: s)
  case Nil
  show ?case by simp
next
  case (Cons inp inps)
  obtain now evs where i: "inp = (now, evs)" by (cases inp)
  show ?case
    using Cons.IH [of "loop_body drv g (now, evs) s"]
    by (simp add: i timeCur_loop_body)
qed

lemma while_loop_facts:
  assumes "while_loop drv g inps s = Some s'"
  shows "\<exists>k \<le> length inps. s' = passes drv g (take k inps) s
           \<and> draws (snd (snd s')) = draws (snd (snd s)) + k
           \<and> timeCur (fst s') = last (timeCur (fst s) # map fst (take k inps))"
proof -
  from while_loop_passes [OF assms] obtain k where k: "k \<le> length inps"
    and e: "s' = passes drv g (take k inps) s" by blast
  have "draws (snd (snd s')) = draws (snd (snd s)) + k"
    unfolding e using passes_sum [of drv g "take k inps" s] k by simp
  moreover have "timeCur (fst s') = last (timeCur (fst s) # map fst (take k inps))"
    unfolding e by (rule timeCur_passes)
  ultimately show ?thesis using k e by blast
qed

lemma loop_body_sum_nat:
  assumes "unat (frames_total (fst (snd s))) + unat (frame (fst (snd s))) + 1 < 2 ^ 32"
  shows "unat (frames_total (fst (snd (loop_body drv g inp s))))
           + unat (frame (fst (snd (loop_body drv g inp s))))
         = unat (frames_total (fst (snd s))) + unat (frame (fst (snd s))) + 1"
proof -
  obtain now evs where i: "inp = (now, evs)" by (cases inp)
  obtain app lv wd where s: "s = (app, lv, wd)" by (cases s)
  have b: "unat (frames_total lv) + unat (frame lv) + 1 < 2 ^ 32"
    using assms unfolding s by simp
  then have 1: "unat (frames_total lv + frame lv) = unat (frames_total lv) + unat (frame lv)"
    by (simp add: unat_add_lem [THEN iffD1])
  have "unat (frame lv) + unat (1 :: 32 word) < 2 ^ 32" using b by simp
  then have 2: "unat (frame lv + 1) = unat (frame lv) + 1"
    using unat_add_lem [THEN iffD1, of "frame lv" 1] by simp
  show ?thesis unfolding i s loop_body_lv using 1 2 by simp
qed

lemma passes_sum_nat:
  assumes "unat (frames_total (fst (snd s))) + unat (frame (fst (snd s))) + length inps < 2 ^ 32"
  shows "unat (frames_total (fst (snd (passes drv g inps s))))
           + unat (frame (fst (snd (passes drv g inps s))))
         = unat (frames_total (fst (snd s))) + unat (frame (fst (snd s))) + length inps"
  using assms
proof (induction inps arbitrary: s)
  case Nil
  show ?case by simp
next
  case (Cons inp inps)
  have 1: "unat (frames_total (fst (snd s))) + unat (frame (fst (snd s))) + 1 < 2 ^ 32"
    using Cons.prems by simp
  note b = loop_body_sum_nat [OF 1, of drv g inp]
  have 2: "unat (frames_total (fst (snd (loop_body drv g inp s))))
             + unat (frame (fst (snd (loop_body drv g inp s)))) + length inps < 2 ^ 32"
    using Cons.prems b by simp
  from Cons.IH [OF 2] b show ?case by simp
qed

lemma mainLoop_Some:
  assumes "mainLoop drv g t0 inps (app, wd) = Some (app', wd')"
  shows "\<exists>lv1 wd2.
           while_loop drv g inps
             (app, \<lparr>frame = 0, frames_total = 0, start_time = t0, last_time = t0\<rparr>,
              info ''entering main loop'' [] wd) = Some (app', lv1, wd2)
           \<and> wd' = info exit_format
               [U (frames_total lv1 + frame lv1),
                FD (round_double drv (timeCur app' - start_time lv1)),
                FD (fp_div (round_double drv) (Finite (real (unat (frames_total lv1 + frame lv1))))
                      (round_double drv (timeCur app' - start_time lv1)))] wd2"
  using assms
  by (auto simp add: mainLoop_def Let_def split: option.splits)

lemma mainLoop_report:
  assumes "mainLoop drv g t0 inps (app, wd) = Some (app', wd')"
  shows "last (trace wd') =
           Stdout exit_format
             [U (of_nat (draws wd' - draws wd)),
              FD (round_double drv (timeCur app' - t0)),
              FD (fp_div (round_double drv)
                    (Finite (real (unat (of_nat (draws wd' - draws wd) :: 32 word))))
                    (round_double drv (timeCur app' - t0)))]"
proof -
  let ?lv = "\<lparr>frame = 0, frames_total = 0, start_time = t0, last_time = t0\<rparr>"
  let ?w1 = "info ''entering main loop'' [] wd"
  from mainLoop_Some [OF assms] obtain lv1 wd2 where
    w: "while_loop drv g inps (app, ?lv, ?w1) = Some (app', lv1, wd2)"
    and w': "wd' = info exit_format
        [U (frames_total lv1 + frame lv1),
         FD (round_double drv (timeCur app' - start_time lv1)),
         FD (fp_div (round_double drv) (Finite (real (unat (frames_total lv1 + frame lv1))))
               (round_double drv (timeCur app' - start_time lv1)))] wd2"
    by blast
  from while_loop_sum [OF w]
  have sum: "frames_total lv1 + frame lv1 = of_nat (draws wd2 - draws wd)"
    and st: "start_time lv1 = t0"
    by simp_all
  have d: "draws wd2 = draws wd'"
    unfolding w' by simp
  have sum': "frames_total lv1 + frame lv1 = of_nat (draws wd' - draws wd)"
    using sum d by simp
  have "last (trace wd') =
          Stdout exit_format
            [U (frames_total lv1 + frame lv1),
             FD (round_double drv (timeCur app' - start_time lv1)),
             FD (fp_div (round_double drv) (Finite (real (unat (frames_total lv1 + frame lv1))))
                   (round_double drv (timeCur app' - start_time lv1)))]"
    unfolding w' by (simp add: info_def emit_def)
  then show ?thesis
    unfolding sum' st .
qed

lemma mainLoop_run:
  assumes "\<not> shouldClose wd"
  shows "\<exists>app' wd'. mainLoop drv g t0 (replicate n (t, []) @ [(t, [CloseRequest])]) (app, wd)
            = Some (app', wd')
          \<and> draws wd' = draws wd + Suc n \<and> timeCur app' = t"
proof -
  let ?inps = "replicate n (t, []) @ [(t, [CloseRequest])]"
  let ?s0 = "(app, \<lparr>frame = 0, frames_total = 0, start_time = t0, last_time = t0\<rparr>,
              info ''entering main loop'' [] wd)"
  let ?X = "passes drv g ?inps ?s0"
  have nc: "\<not> shouldClose (snd (snd ?s0))" using assms by simp
  have w: "while_loop drv g ?inps ?s0 = Some ?X"
    by (rule while_loop_run [OF nc])
  have d: "draws (snd (snd ?X)) = draws wd + Suc n"
    using passes_sum [of drv g ?inps ?s0] by simp
  have t: "timeCur (fst ?X) = t"
    by (simp add: timeCur_loop_body)
  obtain app1 lv1 wd2 where X: "?X = (app1, lv1, wd2)" by (cases ?X)
  have "mainLoop drv g t0 ?inps (app, wd) =
          Some (app1, info exit_format
             [U (frames_total lv1 + frame lv1),
              FD (round_double drv (timeCur app1 - start_time lv1)),
              FD (fp_div (round_double drv) (Finite (real (unat (frames_total lv1 + frame lv1))))
                    (round_double drv (timeCur app1 - start_time lv1)))]
             wd2)"
    using w unfolding X by (simp add: mainLoop_def Let_def)
  moreover have "draws wd2 = draws wd + Suc n" using d unfolding X by simp
  moreover have "timeCur app1 = t" using t unfolding X by simp
  ultimately show ?thesis by simp
qed

text \<open>
  Claim C7, as amended. When \<^verbatim>\<open>mainLoop\<close> returns after fewer than 2^32 frames, the
  last line it prints reports the number of draw calls of the run; the difference
  between the last clock reading taken at the head of a pass (the time at which the
  last frame began) and the reading taken before the loop; and the quotient of the two,
  each operation rounded as a double, the quotient by zero being an infinity or a NaN.
  The number of frames is the number of passes made. The count of the frames of the
  refreshed windows, \<^verbatim>\<open>frames_total\<close>, and the count of the open one,
  \<^verbatim>\<open>frame\<close>, add up to it when the loop is left. No clock reading is taken after
  the loop, so the time reported is not that of the whole run.
\<close>

theorem frames_and_average_reported:
  assumes "mainLoop drv g t0 inps (app, wd) = Some (app', wd')"
    and "draws wd' - draws wd < 2 ^ 32"
  shows "last (trace wd') =
           Stdout exit_format
             [U (of_nat (draws wd' - draws wd)),
              FD (round_double drv (timeCur app' - t0)),
              FD (fp_div (round_double drv) (Finite (real (draws wd' - draws wd)))
                    (round_double drv (timeCur app' - t0)))]
         \<and> unat (of_nat (draws wd' - draws wd) :: 32 word) = draws wd' - draws wd
         \<and> (\<exists>k \<le> length inps. draws wd' - draws wd = k
               \<and> timeCur app' = last (timeCur app # map fst (take k inps)))
         \<and> (while_loop drv g inps
               (app, \<lparr>frame = 0, frames_total = 0, start_time = t0, last_time = t0\<rparr>,
                info ''entering main loop'' [] wd) = Some (app1, lv1, wd1) \<longrightarrow>
             unat (frames_total lv1) + unat (frame lv1) = draws wd' - draws wd)"
proof -
  let ?lv = "\<lparr>frame = 0, frames_total = 0, start_time = t0, last_time = t0\<rparr>"
  let ?w1 = "info ''entering main loop'' [] wd"
  let ?n = "draws wd' - draws wd"
  have u: "unat (of_nat ?n :: 32 word) = ?n"
    using assms(2) by (simp add: unat_of_nat)
  from mainLoop_Some [OF assms(1)] obtain lv2 wd2 where
    w: "while_loop drv g inps (app, ?lv, ?w1) = Some (app', lv2, wd2)"
    and w': "wd' = info exit_format
        [U (frames_total lv2 + frame lv2),
         FD (round_double drv (timeCur app' - start_time lv2)),
         FD (fp_div (round_double drv) (Finite (real (unat (frames_total lv2 + frame lv2))))
               (round_double drv (timeCur app' - start_time lv2)))] wd2"
    by blast
  have d: "draws wd' = draws wd2" unfolding w' by simp
  from while_loop_facts [OF w] obtain k where k: "k \<le> length inps"
    and p: "(app', lv2, wd2) = passes drv g (take k inps) (app, ?lv, ?w1)"
    and dk: "draws wd2 = draws wd + k"
    and t: "timeCur app' = last (timeCur app # map fst (take k inps))"
    by auto
  have n: "?n = k" using d dk by simp
  have 1: "last (trace wd') =
           Stdout exit_format
             [U (of_nat ?n), FD (round_double drv (timeCur app' - t0)),
              FD (fp_div (round_double drv) (Finite (real ?n))
                    (round_double drv (timeCur app' - t0)))]"
    using mainLoop_report [OF assms(1)] unfolding u .
  have 3: "\<exists>k \<le> length inps. ?n = k \<and> timeCur app' = last (timeCur app # map fst (take k inps))"
    using k n t by blast
  have len: "length (take k inps) = k" using k by simp
  have "unat (frames_total (fst (snd (app, ?lv, ?w1)))) + unat (frame (fst (snd (app, ?lv, ?w1))))
          + length (take k inps) < 2 ^ 32"
    using assms(2) n len by simp
  from passes_sum_nat [OF this, of drv g]
  have s: "unat (frames_total lv2) + unat (frame lv2) = ?n"
    unfolding p [symmetric] using n len by simp
  have 4: "while_loop drv g inps (app, ?lv, ?w1) = Some (app1, lv1, wd1) \<longrightarrow>
             unat (frames_total lv1) + unat (frame lv1) = ?n"
    using w s by auto
  from 1 u 3 4 show ?thesis by (intro conjI)
qed

theorem frames_and_average_reported_witness:
  "map_option (\<lambda>s. last (trace (snd s)))
     (mainLoop drv_ok glm0 0 (replicate 2 (1, []) @ [(1, [CloseRequest])]) s_init)
   = Some (Stdout exit_format [U 3, FD (Finite 1), FD (Finite 3)])"
proof -
  have nc: "\<not> shouldClose (snd s_init)" by (simp add: shouldClose_s_init)
  from mainLoop_run [OF nc, of drv_ok glm0 0 2 1 "fst s_init"]
  obtain app' wd' where
    r: "mainLoop drv_ok glm0 0 (replicate 2 (1, []) @ [(1, [CloseRequest])]) (fst s_init, snd s_init)
          = Some (app', wd')"
    and d: "draws wd' = draws (snd s_init) + Suc 2" and t: "timeCur app' = 1"
    by blast
  have n: "draws wd' - draws (snd s_init) = 3" using d by simp
  have b: "draws wd' - draws (snd s_init) < 2 ^ 32" unfolding n by simp
  from frames_and_average_reported [OF r b, THEN conjunct1] have
    "last (trace wd') = Stdout exit_format
       [U (of_nat 3), FD (round_double drv_ok (1 - 0)),
        FD (fp_div (round_double drv_ok) (Finite (real 3)) (round_double drv_ok (1 - 0)))]"
    unfolding n t .
  then have "last (trace wd') = Stdout exit_format [U 3, FD (Finite 1), FD (Finite 3)]"
    by (simp add: drv_ok_def)
  with r show ?thesis by simp
qed

text \<open>
  The claim as the specification states it (the average is the total divided by the
  duration of the whole run) fails on a run of one frame. With the clock at 0 before
  the loop and at 1/1024 at the head of the only pass, the program reports one frame
  in 1/1024 seconds and 1024 frames per second, however long the frame takes to draw.
  With the clock at 5 both times it reports one frame in 0 seconds and an infinite
  rate.
\<close>

theorem average_over_run_duration_counterexample:
  "map_option (\<lambda>s. last (trace (snd s)))
     (mainLoop drv_ok glm0 0 [(1/1024, [CloseRequest])] s_init)
   = Some (Stdout exit_format [U 1, FD (Finite (1/1024)), FD (Finite 1024)])
   \<and> map_option (\<lambda>s. last (trace (snd s)))
     (mainLoop drv_ok glm0 5 [(5, [CloseRequest])] s_init)
   = Some (Stdout exit_format [U 1, FD (Finite 0), FD PosInf])"
proof -
  have nc: "\<not> shouldClose (snd s_init)" by (simp add: shouldClose_s_init)
  have run: "map_option (\<lambda>s. last (trace (snd s)))
      (mainLoop drv_ok glm0 t0 [(t, [CloseRequest])] s_init)
    = Some (Stdout exit_format
        [U 1, FD (Finite (t - t0)), FD (fp_div Finite (Finite 1) (Finite (t - t0)))])" for t0 t
  proof -
    from mainLoop_run [OF nc, of drv_ok glm0 t0 0 t "fst s_init"]
    obtain app' wd' where
      r: "mainLoop drv_ok glm0 t0 [(t, [CloseRequest])] (fst s_init, snd s_init) = Some (app', wd')"
      and d: "draws wd' = draws (snd s_init) + Suc 0" and t: "timeCur app' = t"
      by auto
    have n: "draws wd' - draws (snd s_init) = 1" using d by simp
    from mainLoop_report [OF r] have
      "last (trace wd') = Stdout exit_format
         [U (of_nat 1), FD (round_double drv_ok (t - t0)),
          FD (fp_div (round_double drv_ok) (Finite (real (unat (of_nat 1 :: 32 word))))
                (round_double drv_ok (t - t0)))]"
      unfolding n t .
    then have "last (trace wd') = Stdout exit_format
        [U 1, FD (Finite (t - t0)), FD (fp_div Finite (Finite 1) (Finite (t - t0)))]"
      by (simp add: drv_ok_def)
    with r show ?thesis by simp
  qed
  from run [of 0 "1/1024"] run [of 5 5] show ?thesis by simp
qed






lemma cube_loop_body:
  "cube (fst (loop_body drv g (now, evs) (app, lv, wd))) =
     (cube app)\<lparr>model := rotate g (model (cube app))
        (fp_cast (round_float drv)
           (fp_mul (round_double drv) (Finite (half_pi_double g))
              (round_double drv (now - timeCur app))))
        (round_float drv (8/10), round_float drv (6/10), round_float drv (1/10))\<rparr>"
  by (simp add: loop_body_def Let_def split_def input_frame_fields [OF input_frame_glfwPollEvents]
      update_fps_app displayFunc_def)

lemma passes_model:
  "model (cube (fst (passes drv g inps (app, lv, wd)))) =
     foldl (\<lambda>M a. rotate g M a
              (round_float drv (8/10), round_float drv (6/10), round_float drv (1/10)))
       (model (cube app)) (angles drv g (timeCur app) (map fst inps))"
proof (induction inps arbitrary: app lv wd)
  case Nil
  show ?case by simp
next
  case (Cons inp inps)
  obtain now evs where i: "inp = (now, evs)" by (cases inp)
  obtain app1 lv1 wd1 where b: "loop_body drv g (now, evs) (app, lv, wd) = (app1, lv1, wd1)"
    by (cases "loop_body drv g (now, evs) (app, lv, wd)")
  have c: "model (cube app1) = rotate g (model (cube app))
        (fp_cast (round_float drv)
           (fp_mul (round_double drv) (Finite (half_pi_double g))
              (round_double drv (now - timeCur app))))
        (round_float drv (8/10), round_float drv (6/10), round_float drv (1/10))"
    using cube_loop_body [of drv g now evs app lv wd] b by simp
  have t: "timeCur app1 = now"
    using loop_body_timing [of drv g now evs app lv wd] b by simp
  from Cons.IH [of app1 lv1 wd1] show ?case
    unfolding i by (simp add: b c t)
qed

lemma rel_err_bounds:
  fixes a c k :: real
  assumes "\<bar>a - c\<bar> \<le> c * k"
  shows "a \<le> c * (1 + k)" and "c * (1 - k) \<le> a"
proof -
  from assms have 1: "a - c \<le> c * k" and 2: "c - a \<le> c * k" by linarith+
  have "a \<le> c + c * k" using 1 by linarith
  then show "a \<le> c * (1 + k)" by (simp add: distrib_left)
  have "c - c * k \<le> a" using 2 by linarith
  then show "c * (1 - k) \<le> a" by (simp add: right_diff_distrib)
qed

lemma rel_err_abs:
  fixes a c k :: real
  assumes "a \<le> c * (1 + k)" and "c * (1 - k) \<le> a"
  shows "\<bar>a - c\<bar> \<le> c * k"
proof -
  have "a \<le> c + c * k" using assms(1) by (simp add: distrib_left)
  moreover have "c - c * k \<le> a" using assms(2) by (simp add: right_diff_distrib)
  ultimately show ?thesis by linarith
qed

lemma angle_bound:
  fixes rd rf :: "real \<Rightarrow> fp" and hp d :: real
  assumes hd: "\<And>x. x = 0 \<or> (1 / 2 ^ 1022 \<le> \<bar>x\<bar> \<and> \<bar>x\<bar> \<le> 2 ^ 1023) \<Longrightarrow>
                 \<exists>y. rd x = Finite y \<and> \<bar>y - x\<bar> \<le> \<bar>x\<bar> / 2 ^ 53"
    and hf: "\<And>x. x = 0 \<or> (1 / 2 ^ 126 \<le> \<bar>x\<bar> \<and> \<bar>x\<bar> \<le> 2 ^ 127) \<Longrightarrow>
                 \<exists>y. rf x = Finite y \<and> \<bar>y - x\<bar> \<le> \<bar>x\<bar> / 2 ^ 24"
    and hp: "1 \<le> hp" "hp \<le> 2"
    and d: "d = 0 \<or> (1 / 2 ^ 100 \<le> d \<and> d \<le> 2 ^ 100)"
  shows "\<exists>a. fp_cast rf (fp_mul rd (Finite hp) (rd d)) = Finite a
           \<and> \<bar>a - hp * d\<bar> \<le> hp * d / 2 ^ 23"
proof (cases "d = 0")
  case True
  from hd [of 0] have rd0: "rd 0 = Finite 0" by auto
  from hf [of 0] have rf0: "rf 0 = Finite 0" by auto
  show ?thesis by (simp add: True rd0 rf0)
next
  case False
  with d have lo: "1 / 2 ^ 100 \<le> d" and hi: "d \<le> 2 ^ 100" by simp_all
  have dpos: "0 < d"
  proof -
    have "(0::real) < 1 / 2 ^ 100" by simp
    with lo show ?thesis by linarith
  qed
  have n1: "(1::real) / 2 ^ 1022 \<le> 1 / 2 ^ 102" by simp
  have n2: "(2::real) ^ 103 \<le> 2 ^ 1023" by simp
  have n3: "(1::real) / 2 ^ 126 \<le> 1 / 2 ^ 102" by simp
  have n4: "(2::real) ^ 103 \<le> 2 ^ 127" by simp
  have m1: "(1::real) / 2 ^ 100 = 4 * (1 / 2 ^ 102)" by simp
  have m2: "(2::real) ^ 103 = 8 * 2 ^ 100" by simp
  have h53: "(0::real) < 1 / 2 ^ 53" "(1::real) / 2 ^ 53 \<le> 1 / 2" by simp_all
  have "1 / 2 ^ 1022 \<le> \<bar>d\<bar> \<and> \<bar>d\<bar> \<le> 2 ^ 1023"
    using lo hi dpos n1 n2 m1 m2 by (simp only: abs_of_pos) linarith
  with hd [of d] obtain dl where dl: "rd d = Finite dl" and e1: "\<bar>dl - d\<bar> \<le> \<bar>d\<bar> / 2 ^ 53"
    by blast
  have e1': "\<bar>dl - d\<bar> \<le> d * (1 / 2 ^ 53)" using e1 dpos by simp
  have "d * (1 / 2 ^ 53) \<le> d * (1 / 2)" using dpos h53 by (intro mult_left_mono) simp_all
  with e1' have dl_lo: "d / 2 \<le> dl" and dl_hi: "dl \<le> 2 * d" using dpos by linarith+
  have dlpos: "0 < dl" using dl_lo dpos by linarith
  let ?p = "hp * dl"
  let ?c = "hp * d"
  have cpos: "0 < ?c" using hp(1) dpos by simp
  have "1 * dl \<le> hp * dl" using hp(1) dlpos by (intro mult_right_mono) simp_all
  then have p_lo: "d / 2 \<le> ?p" using dl_lo by linarith
  have "hp * dl \<le> 2 * dl" using hp(2) dlpos by (intro mult_right_mono) simp_all
  then have p_hi: "?p \<le> 4 * d" using dl_hi by linarith
  have ppos: "0 < ?p" using p_lo dpos by linarith
  have "?p - ?c = hp * (dl - d)" by (simp add: algebra_simps)
  then have "\<bar>?p - ?c\<bar> = hp * \<bar>dl - d\<bar>" using hp(1) by (simp add: abs_mult)
  also have "\<dots> \<le> hp * (d * (1 / 2 ^ 53))" using e1' hp(1) by (intro mult_left_mono) simp_all
  also have "\<dots> = ?c * (1 / 2 ^ 53)" by simp
  finally have b1: "\<bar>?p - ?c\<bar> \<le> ?c * (1 / 2 ^ 53)" .
  have "1 / 2 ^ 1022 \<le> \<bar>?p\<bar> \<and> \<bar>?p\<bar> \<le> 2 ^ 1023"
    using p_lo p_hi lo hi ppos n1 n2 m1 m2 by (simp only: abs_of_pos) linarith
  with hd [of ?p] obtain q where q: "rd ?p = Finite q" and e2: "\<bar>q - ?p\<bar> \<le> \<bar>?p\<bar> / 2 ^ 53"
    by blast
  have b2: "\<bar>q - ?p\<bar> \<le> ?p * (1 / 2 ^ 53)" using e2 ppos by simp
  have "?p * (1 / 2 ^ 53) \<le> ?p * (1 / 2)" using ppos h53 by (intro mult_left_mono) simp_all
  with b2 have q_lo: "?p / 2 \<le> q" and q_hi: "q \<le> 2 * ?p" using ppos by linarith+
  have qpos: "0 < q" using q_lo ppos by linarith
  have "1 / 2 ^ 126 \<le> \<bar>q\<bar> \<and> \<bar>q\<bar> \<le> 2 ^ 127"
    using q_lo q_hi p_lo p_hi lo hi qpos n3 n4 m1 m2 by (simp only: abs_of_pos) linarith
  with hf [of q] obtain a where a: "rf q = Finite a" and e3: "\<bar>a - q\<bar> \<le> \<bar>q\<bar> / 2 ^ 24"
    by blast
  have b3: "\<bar>a - q\<bar> \<le> q * (1 / 2 ^ 24)" using e3 qpos by simp
  have v: "fp_cast rf (fp_mul rd (Finite hp) (rd d)) = Finite a"
    by (simp add: dl q a)
  have k1: "(1 + 1 / 2 ^ 53) * (1 + 1 / 2 ^ 53) * (1 + 1 / 2 ^ 24) \<le> 1 + (1::real) / 2 ^ 23"
    by simp
  have k2: "1 - (1::real) / 2 ^ 23 \<le> (1 - 1 / 2 ^ 53) * (1 - 1 / 2 ^ 53) * (1 - 1 / 2 ^ 24)"
    by simp
  note u1 = rel_err_bounds(1) [OF b1] and l1 = rel_err_bounds(2) [OF b1]
  note u2 = rel_err_bounds(1) [OF b2] and l2 = rel_err_bounds(2) [OF b2]
  note u3 = rel_err_bounds(1) [OF b3] and l3 = rel_err_bounds(2) [OF b3]
  have "a \<le> q * (1 + 1 / 2 ^ 24)" by (rule u3)
  also have "\<dots> \<le> (?p * (1 + 1 / 2 ^ 53)) * (1 + 1 / 2 ^ 24)"
    using u2 by (intro mult_right_mono) simp_all
  also have "\<dots> \<le> ((?c * (1 + 1 / 2 ^ 53)) * (1 + 1 / 2 ^ 53)) * (1 + 1 / 2 ^ 24)"
    using u1 by (intro mult_right_mono) simp_all
  also have "\<dots> = ?c * ((1 + 1 / 2 ^ 53) * (1 + 1 / 2 ^ 53) * (1 + 1 / 2 ^ 24))"
    by (simp only: mult.assoc)
  also have "\<dots> \<le> ?c * (1 + 1 / 2 ^ 23)"
    using cpos k1 by (intro mult_left_mono) simp_all
  finally have up: "a \<le> ?c * (1 + 1 / 2 ^ 23)" .
  have "?c * (1 - 1 / 2 ^ 23) \<le> ?c * ((1 - 1 / 2 ^ 53) * (1 - 1 / 2 ^ 53) * (1 - 1 / 2 ^ 24))"
    using cpos k2 by (intro mult_left_mono) simp_all
  also have "\<dots> = ((?c * (1 - 1 / 2 ^ 53)) * (1 - 1 / 2 ^ 53)) * (1 - 1 / 2 ^ 24)"
    by (simp only: mult.assoc)
  also have "\<dots> \<le> (?p * (1 - 1 / 2 ^ 53)) * (1 - 1 / 2 ^ 24)"
    using l1 by (intro mult_right_mono) simp_all
  also have "\<dots> \<le> q * (1 - 1 / 2 ^ 24)"
    using l2 by (intro mult_right_mono) simp_all
  also have "\<dots> \<le> a" by (rule l3)
  finally have lw: "?c * (1 - 1 / 2 ^ 23) \<le> a" .
  have "\<bar>a - ?c\<bar> \<le> ?c * (1 / 2 ^ 23)"
    using up lw by (rule rel_err_abs)
  then have "\<bar>a - ?c\<bar> \<le> ?c / 2 ^ 23" by simp
  with v show ?thesis by blast
qed

lemma angles_sum:
  fixes drv :: "'m driver" and g :: "'m glm"
  assumes hd: "\<And>x. x = 0 \<or> (1 / 2 ^ 1022 \<le> \<bar>x\<bar> \<and> \<bar>x\<bar> \<le> 2 ^ 1023) \<Longrightarrow>
                 \<exists>y. round_double drv x = Finite y \<and> \<bar>y - x\<bar> \<le> \<bar>x\<bar> / 2 ^ 53"
    and hf: "\<And>x. x = 0 \<or> (1 / 2 ^ 126 \<le> \<bar>x\<bar> \<and> \<bar>x\<bar> \<le> 2 ^ 127) \<Longrightarrow>
                 \<exists>y. round_float drv x = Finite y \<and> \<bar>y - x\<bar> \<le> \<bar>x\<bar> / 2 ^ 24"
    and hp: "1 \<le> half_pi_double g" "half_pi_double g \<le> 2"
    and ds: "\<forall>d \<in> set (deltas t ts). d = 0 \<or> (1 / 2 ^ 100 \<le> d \<and> d \<le> 2 ^ 100)"
  shows "\<exists>as. angles drv g t ts = map Finite as
           \<and> \<bar>sum_list as - half_pi_double g * (last (t # ts) - t)\<bar>
               \<le> half_pi_double g * (last (t # ts) - t) / 2 ^ 23"
  using ds
proof (induction ts arbitrary: t)
  case Nil
  show ?case by simp
next
  case (Cons now ts)
  have d: "now - t = 0 \<or> (1 / 2 ^ 100 \<le> now - t \<and> now - t \<le> 2 ^ 100)"
    using Cons.prems by simp
  from angle_bound [of "round_double drv" "round_float drv", OF hd hf hp d]
  obtain a where a: "fp_cast (round_float drv)
        (fp_mul (round_double drv) (Finite (half_pi_double g)) (round_double drv (now - t)))
      = Finite a"
    and ea: "\<bar>a - half_pi_double g * (now - t)\<bar> \<le> half_pi_double g * (now - t) / 2 ^ 23"
    by blast
  have "\<forall>d \<in> set (deltas now ts). d = 0 \<or> (1 / 2 ^ 100 \<le> d \<and> d \<le> 2 ^ 100)"
    using Cons.prems by simp
  from Cons.IH [OF this] obtain as where as: "angles drv g now ts = map Finite as"
    and es: "\<bar>sum_list as - half_pi_double g * (last (now # ts) - now)\<bar>
               \<le> half_pi_double g * (last (now # ts) - now) / 2 ^ 23"
    by blast
  have l: "last (t # now # ts) = last (now # ts)" by simp
  have "angles drv g t (now # ts) = map Finite (a # as)"
    by (simp add: a as)
  moreover have "\<bar>sum_list (a # as) - half_pi_double g * (last (t # now # ts) - t)\<bar>
      \<le> half_pi_double g * (last (t # now # ts) - t) / 2 ^ 23"
  proof -
    let ?h = "half_pi_double g"
    let ?l = "last (now # ts)"
    have s: "?h * (?l - t) = ?h * (now - t) + ?h * (?l - now)"
      by (simp add: algebra_simps)
    have "\<bar>a + sum_list as - (?h * (now - t) + ?h * (?l - now))\<bar>
        \<le> ?h * (now - t) / 2 ^ 23 + ?h * (?l - now) / 2 ^ 23"
      using ea es by linarith
    also have "\<dots> = (?h * (now - t) + ?h * (?l - now)) / 2 ^ 23"
      by (simp add: add_divide_distrib)
    finally show ?thesis unfolding l s by simp
  qed
  ultimately show ?case by blast
qed

lemma foldl_rotate_additive:
  assumes "\<And>M a b. rotate g (rotate g M (Finite a) v) (Finite b) v = rotate g M (Finite (a + b)) v"
    and "\<And>M. rotate g M (Finite 0) v = M"
  shows "foldl (\<lambda>M a. rotate g M a v) M0 (map Finite as) = rotate g M0 (Finite (sum_list as)) v"
proof (induction as arbitrary: M0)
  case Nil
  show ?case by (simp add: assms(2))
next
  case (Cons a as)
  have "foldl (\<lambda>M a. rotate g M a v) M0 (map Finite (a # as)) =
      rotate g (rotate g M0 (Finite a) v) (Finite (sum_list as)) v"
    by (simp add: Cons.IH)
  also have "\<dots> = rotate g M0 (Finite (a + sum_list as)) v"
    by (rule assms(1))
  finally show ?case by simp
qed

lemma round_literals_error:
  "\<exists>y. round_literals x = Finite y \<and> \<bar>y - x\<bar> \<le> \<bar>x\<bar> / 2 ^ 24"
proof -
  consider "x = 1/10" | "x = 3/10" | "x = 6/10" | "x = 8/10"
    | "x \<noteq> 1/10 \<and> x \<noteq> 3/10 \<and> x \<noteq> 6/10 \<and> x \<noteq> 8/10"
    by blast
  then show ?thesis
  proof cases
    case 1
    have "round_literals (1/10) = Finite (13421773 / 2 ^ 27)"
      by (simp add: round_literals_def)
    moreover have "\<bar>13421773 / 2 ^ 27 - 1/10\<bar> \<le> \<bar>1/10 :: real\<bar> / 2 ^ 24"
      by simp
    ultimately show ?thesis unfolding 1 by blast
  next
    case 2
    have "round_literals (3/10) = Finite (10066330 / 2 ^ 25)"
      by (simp add: round_literals_def)
    moreover have "\<bar>10066330 / 2 ^ 25 - 3/10\<bar> \<le> \<bar>3/10 :: real\<bar> / 2 ^ 24"
      by simp
    ultimately show ?thesis unfolding 2 by blast
  next
    case 3
    have "round_literals (6/10) = Finite (10066330 / 2 ^ 24)"
      by (simp add: round_literals_def)
    moreover have "\<bar>10066330 / 2 ^ 24 - 6/10\<bar> \<le> \<bar>6/10 :: real\<bar> / 2 ^ 24"
      by simp
    ultimately show ?thesis unfolding 3 by blast
  next
    case 4
    have "round_literals (8/10) = Finite (13421773 / 2 ^ 24)"
      by (simp add: round_literals_def)
    moreover have "\<bar>13421773 / 2 ^ 24 - 8/10\<bar> \<le> \<bar>8/10 :: real\<bar> / 2 ^ 24"
      by simp
    ultimately show ?thesis unfolding 4 by blast
  next
    case 5
    then show ?thesis by (simp add: round_literals_def)
  qed
qed

text \<open>
  Claim C6. A pass through the loop with clock reading \<open>now\<close> stores the delta
  \<open>now - timeCur\<close>, rounded as the subtraction of two doubles rounds it, and replaces
  the model matrix M of the cube by \<^verbatim>\<open>glm::rotate\<close> of M, the angle
  \<^verbatim>\<open>half_pi * delta\<close> converted to a float, and the axis \<^verbatim>\<open>(0.8f, 0.6f, 0.1f)\<close>.
  No constant per-frame increment is involved: the angles handed to \<^verbatim>\<open>glm::rotate\<close>
  over a run are those of \<open>angles\<close>, a function of the clock readings.

  The total of these angles depends on the time elapsed and not on the number of
  passes, up to rounding. Let the two roundings have a relative error of at most
  2^-53 and 2^-24 on the values of normal size and be exact at 0, as those of binary64
  and binary32 are, let \<^verbatim>\<open>half_pi\<close> lie between 1 and 2, and let every delta of the
  run be zero or between 2^-100 and 2^100. Then every angle is finite, and the sum of
  the angles differs from \<^verbatim>\<open>half_pi\<close> times the time from the first \<open>timeCur\<close> to
  the last reading by at most the fraction 2^-23 of it, whatever the number of passes.
  For a \<^verbatim>\<open>rotate\<close> under which rotations about the axis compose by adding their
  angles, the model matrix at the end is the one at the start rotated by that sum.
\<close>

theorem rotation_scales_with_delta:
  assumes "\<And>x. x = 0 \<or> (1 / 2 ^ 1022 \<le> \<bar>x\<bar> \<and> \<bar>x\<bar> \<le> 2 ^ 1023) \<Longrightarrow>
             \<exists>y. round_double drv x = Finite y \<and> \<bar>y - x\<bar> \<le> \<bar>x\<bar> / 2 ^ 53"
    and "\<And>x. x = 0 \<or> (1 / 2 ^ 126 \<le> \<bar>x\<bar> \<and> \<bar>x\<bar> \<le> 2 ^ 127) \<Longrightarrow>
             \<exists>y. round_float drv x = Finite y \<and> \<bar>y - x\<bar> \<le> \<bar>x\<bar> / 2 ^ 24"
    and "1 \<le> half_pi_double g" and "half_pi_double g \<le> 2"
    and "\<forall>d \<in> set (deltas (timeCur app) (map fst inps)).
           d = 0 \<or> (1 / 2 ^ 100 \<le> d \<and> d \<le> 2 ^ 100)"
  shows "model (cube (fst (loop_body drv g (now, evs) (app, lv, wd)))) =
           rotate g (model (cube app))
             (fp_cast (round_float drv)
                (fp_mul (round_double drv) (Finite (half_pi_double g))
                   (round_double drv (now - timeCur app))))
             (round_float drv (8/10), round_float drv (6/10), round_float drv (1/10))
         \<and> timeDelta (fst (loop_body drv g (now, evs) (app, lv, wd)))
             = round_double drv (now - timeCur app)
         \<and> timeCur (fst (loop_body drv g (now, evs) (app, lv, wd))) = now
         \<and> model (cube (fst (passes drv g inps (app, lv, wd)))) =
             foldl (\<lambda>M a. rotate g M a
                      (round_float drv (8/10), round_float drv (6/10), round_float drv (1/10)))
               (model (cube app)) (angles drv g (timeCur app) (map fst inps))
         \<and> (\<exists>as. angles drv g (timeCur app) (map fst inps) = map Finite as
              \<and> \<bar>sum_list as
                   - half_pi_double g * (last (timeCur app # map fst inps) - timeCur app)\<bar>
                  \<le> half_pi_double g * (last (timeCur app # map fst inps) - timeCur app) / 2 ^ 23
              \<and> ((\<forall>M a b. rotate g (rotate g M (Finite a)
                       (round_float drv (8/10), round_float drv (6/10), round_float drv (1/10)))
                       (Finite b)
                       (round_float drv (8/10), round_float drv (6/10), round_float drv (1/10))
                     = rotate g M (Finite (a + b))
                         (round_float drv (8/10), round_float drv (6/10), round_float drv (1/10)))
                   \<and> (\<forall>M. rotate g M (Finite 0)
                         (round_float drv (8/10), round_float drv (6/10), round_float drv (1/10)) = M)
                   \<longrightarrow> model (cube (fst (passes drv g inps (app, lv, wd)))) =
                         rotate g (model (cube app)) (Finite (sum_list as))
                           (round_float drv (8/10), round_float drv (6/10), round_float drv (1/10))))"
proof -
  let ?v = "(round_float drv (8/10), round_float drv (6/10), round_float drv (1/10))"
  note B = cube_loop_body [of drv g now evs app lv wd]
  note T = loop_body_timing [of drv g now evs app lv wd]
  note P = passes_model [of drv g inps app lv wd]
  from angles_sum [of drv g, OF assms] obtain as where
    as: "angles drv g (timeCur app) (map fst inps) = map Finite as"
    and es: "\<bar>sum_list as - half_pi_double g * (last (timeCur app # map fst inps) - timeCur app)\<bar>
              \<le> half_pi_double g * (last (timeCur app # map fst inps) - timeCur app) / 2 ^ 23"
    by blast
  have r: "(\<forall>M a b. rotate g (rotate g M (Finite a) ?v) (Finite b) ?v = rotate g M (Finite (a + b)) ?v)
        \<and> (\<forall>M. rotate g M (Finite 0) ?v = M) \<longrightarrow>
        model (cube (fst (passes drv g inps (app, lv, wd)))) =
          rotate g (model (cube app)) (Finite (sum_list as)) ?v"
  proof
    assume h: "(\<forall>M a b. rotate g (rotate g M (Finite a) ?v) (Finite b) ?v
                  = rotate g M (Finite (a + b)) ?v)
        \<and> (\<forall>M. rotate g M (Finite 0) ?v = M)"
    from h have h1: "\<And>M a b. rotate g (rotate g M (Finite a) ?v) (Finite b) ?v
        = rotate g M (Finite (a + b)) ?v"
      and h2: "\<And>M. rotate g M (Finite 0) ?v = M"
      by blast+
    have "foldl (\<lambda>M a. rotate g M a ?v) (model (cube app)) (map Finite as)
          = rotate g (model (cube app)) (Finite (sum_list as)) ?v"
      by (rule foldl_rotate_additive [OF h1 h2])
    then show "model (cube (fst (passes drv g inps (app, lv, wd)))) =
          rotate g (model (cube app)) (Finite (sum_list as)) ?v"
      unfolding P as .
  qed
  have 1: "model (cube (fst (loop_body drv g (now, evs) (app, lv, wd)))) =
           rotate g (model (cube app))
             (fp_cast (round_float drv)
                (fp_mul (round_double drv) (Finite (half_pi_double g))
                   (round_double drv (now - timeCur app)))) ?v"
    using B by simp
  have 2: "timeDelta (fst (loop_body drv g (now, evs) (app, lv, wd)))
             = round_double drv (now - timeCur app)"
    and 3: "timeCur (fst (loop_body drv g (now, evs) (app, lv, wd))) = now"
    using T by simp_all
  have 5: "\<exists>as. angles drv g (timeCur app) (map fst inps) = map Finite as
              \<and> \<bar>sum_list as
                   - half_pi_double g * (last (timeCur app # map fst inps) - timeCur app)\<bar>
                  \<le> half_pi_double g * (last (timeCur app # map fst inps) - timeCur app) / 2 ^ 23
              \<and> ((\<forall>M a b. rotate g (rotate g M (Finite a) ?v) (Finite b) ?v
                     = rotate g M (Finite (a + b)) ?v)
                   \<and> (\<forall>M. rotate g M (Finite 0) ?v = M)
                   \<longrightarrow> model (cube (fst (passes drv g inps (app, lv, wd)))) =
                         rotate g (model (cube app)) (Finite (sum_list as)) ?v)"
    using as es r by blast
  from 1 2 3 P 5 show ?thesis by (intro conjI)
qed

theorem rotation_scales_with_delta_witness:
  "model (cube (fst (passes drv_ok glm0 [(1/4, []), (1/2, []), (1, [])] (fst s_init, lv0, snd s_init))))
     = 3/2
   \<and> model (cube (fst (passes drv_ok glm0 [(1, [])] (fst s_init, lv0, snd s_init)))) = 3/2
   \<and> angles drv_ok glm0 0 [1/4, 1/2, 1] = [Finite (3/8), Finite (3/8), Finite (3/4)]
   \<and> angles drv_ok glm0 0 [1] = [Finite (3/2)]"
proof -
  have rd: "round_double drv_ok = Finite" and rf: "round_float drv_ok = round_literals"
    by (simp_all add: drv_ok_def)
  have hd: "\<And>x :: real. x = 0 \<or> (1 / 2 ^ 1022 \<le> \<bar>x\<bar> \<and> \<bar>x\<bar> \<le> 2 ^ 1023) \<Longrightarrow>
             \<exists>y. round_double drv_ok x = Finite y \<and> \<bar>y - x\<bar> \<le> \<bar>x\<bar> / 2 ^ 53"
    by (simp add: rd)
  have hf: "\<And>x :: real. x = 0 \<or> (1 / 2 ^ 126 \<le> \<bar>x\<bar> \<and> \<bar>x\<bar> \<le> 2 ^ 127) \<Longrightarrow>
             \<exists>y. round_float drv_ok x = Finite y \<and> \<bar>y - x\<bar> \<le> \<bar>x\<bar> / 2 ^ 24"
    unfolding rf by (rule round_literals_error)
  have hp: "1 \<le> half_pi_double glm0" "half_pi_double glm0 \<le> 2"
    by (simp_all add: glm0_def)
  have t: "timeCur (fst s_init) = 0" by (simp add: fst_s_init)
  have d3: "\<forall>d \<in> set (deltas (timeCur (fst s_init)) (map fst [(1/4, []), (1/2, []), (1::real, [])])).
           d = 0 \<or> (1 / 2 ^ 100 \<le> d \<and> d \<le> 2 ^ 100)"
    by (simp add: t)
  have d1: "\<forall>d \<in> set (deltas (timeCur (fst s_init)) (map fst [(1::real, [])])).
           d = 0 \<or> (1 / 2 ^ 100 \<le> d \<and> d \<le> 2 ^ 100)"
    by (simp add: t)
  have a3: "angles drv_ok glm0 0 [1/4, 1/2, 1] = [Finite (3/8), Finite (3/8), Finite (3/4)]"
    by (simp add: rd rf round_literals_def glm0_def)
  have a1: "angles drv_ok glm0 0 [1] = [Finite (3/2)]"
    by (simp add: rd rf round_literals_def glm0_def)
  have m: "model (cube (fst s_init)) = 0" by (simp add: fst_s_init)
  from rotation_scales_with_delta [OF hd hf hp d3, of 0 "[]" lv0 "snd s_init",
      THEN conjunct2, THEN conjunct2, THEN conjunct2, THEN conjunct1]
  have 1: "model (cube (fst (passes drv_ok glm0 [(1/4, []), (1/2, []), (1, [])]
      (fst s_init, lv0, snd s_init)))) = 3/2"
    by (simp add: t m glm0_def rd rf round_literals_def)
  from rotation_scales_with_delta [OF hd hf hp d1, of 0 "[]" lv0 "snd s_init",
      THEN conjunct2, THEN conjunct2, THEN conjunct2, THEN conjunct1]
  have 2: "model (cube (fst (passes drv_ok glm0 [(1, [])] (fst s_init, lv0, snd s_init)))) = 3/2"
    by (simp add: t m glm0_def rd rf round_literals_def)
  from 1 2 a3 a1 show ?thesis by (intro conjI)
qed

end
